theory Spec2Isabelle
  imports Main "HOL-Library.Char_ord" "HOL-Library.List_Lexorder"
begin

section \<open>Web IDL dictionaries: the builders, the frozen objects and their queries\<close>

text \<open>
  The development embeds \<^verbatim>\<open>web_idl/dictionary.py\<close>: the two builder classes
  \<^verbatim>\<open>Dictionary.IR\<close> and \<^verbatim>\<open>DictionaryMember.IR\<close>, the two frozen classes
  \<^verbatim>\<open>Dictionary\<close> and \<^verbatim>\<open>DictionaryMember\<close>, and the queries of the frozen classes.
  Python objects have identity and are mutable, a member points back to its owner and a
  dictionary reaches its parent through a shared reference object, so objects live in an
  explicit store and are named by their address.
\<close>

subsection \<open>Values and objects\<close>

type_synonym addr = nat

text \<open>
  Modelled from the spec: the classes \<^verbatim>\<open>IdlType\<close>, \<^verbatim>\<open>LiteralConstant\<close>,
  \<^verbatim>\<open>ExtendedAttributes\<close>, \<^verbatim>\<open>CodeGeneratorInfo\<close>, \<^verbatim>\<open>Exposure\<close>, \<^verbatim>\<open>Component\<close>
  and \<^verbatim>\<open>DebugInfo\<close> are imported by the source file and defined elsewhere. The spec
  describes the type descriptor as an opaque value exposing at least \<^verbatim>\<open>isOptional\<close>, the
  literal as an opaque value with no behaviour beyond identity and copy, and the others as
  opaque, copyable payloads that are attached but never interpreted. A type descriptor is
  a name with its optionality flag and a literal is an uninterpreted token; both are
  values without a mutator. The payloads are value objects that a builder carries and
  fills in, so each of them is an object of its own in the store, with an uninterpreted
  content: an attribute of a builder or of a frozen object holds the address of its
  payload, and two objects can hold the same payload. The record types below take the
  type of what stands for a payload as a parameter: an address in the store, and the
  content itself where the contents of an object are compared.
\<close>

record IdlType =
  type_name :: string
  is_optional :: bool

datatype LiteralConstant = Literal string

type_synonym payload = string

datatype kind = DICTIONARY | PARTIAL_DICTIONARY

text \<open>The attributes of a \<^verbatim>\<open>DictionaryMember.IR\<close> object.\<close>

record 'p dictionary_member_ir =
  mir_identifier :: string
  mir_extended_attributes :: "'p option"
  mir_code_generator_info :: "'p option"
  mir_exposure :: "'p option"
  mir_components :: "'p list"
  mir_debug_info :: "'p option"
  mir_idl_type :: IdlType
  mir_default_value :: "LiteralConstant option"

text \<open>
  The attributes of a \<^verbatim>\<open>Dictionary.IR\<close> object; \<open>ir_inherited\<close> holds the address of a
  \<^verbatim>\<open>RefById\<close> object, \<open>ir_own_members\<close> the addresses of member builders.
\<close>

record 'p dictionary_ir =
  ir_identifier :: string
  ir_kind :: kind
  ir_extended_attributes :: "'p option"
  ir_code_generator_info :: "'p option"
  ir_exposure :: "'p option"
  ir_components :: "'p list"
  ir_debug_info :: "'p option"
  ir_is_partial :: bool
  ir_inherited :: "addr option"
  ir_own_members :: "addr list"

text \<open>
  Modelled from the spec: the class \<^verbatim>\<open>RefById\<close> is defined elsewhere. The spec describes
  an indirect reference by identifier that is resolved lazily by an external
  identifier-resolution capability: the object carries the identifier and a target that
  is absent until the resolver has set it.
\<close>

record ref_by_id =
  ref_identifier :: string
  ref_target_object :: "addr option"

text \<open>The attributes of a frozen \<^verbatim>\<open>DictionaryMember\<close>.\<close>

record 'p dictionary_member =
  mem_identifier :: string
  mem_extended_attributes :: "'p option"
  mem_code_generator_info :: "'p option"
  mem_exposure :: "'p option"
  mem_owner :: addr
  mem_components :: "'p list"
  mem_debug_info :: "'p option"
  mem_idl_type :: IdlType
  mem_default_value :: "LiteralConstant option"

text \<open>The attributes of a frozen \<^verbatim>\<open>Dictionary\<close>.\<close>

record 'p dictionary =
  dict_identifier :: string
  dict_extended_attributes :: "'p option"
  dict_code_generator_info :: "'p option"
  dict_exposure :: "'p option"
  dict_components :: "'p list"
  dict_debug_info :: "'p option"
  dict_inherited :: "addr option"
  dict_own_members :: "addr list"

datatype obj =
    DictionaryIR "addr dictionary_ir"
  | DictionaryMemberIR "addr dictionary_member_ir"
  | RefById ref_by_id
  | Dictionary "addr dictionary"
  | DictionaryMember "addr dictionary_member"
  | Payload payload

text \<open>
  The store is the list of all objects allocated so far; the address of an object is its
  position, so a new object gets the address \<open>length h\<close>, which no older object has.
\<close>

type_synonym heap = "obj list"

datatype error = AssertionError | AttributeError | ResolutionError

definition lookup :: "heap \<Rightarrow> addr \<Rightarrow> obj option" where
  "lookup h a = (if a < length h then Some (h ! a) else None)"

definition alloc :: "heap \<Rightarrow> obj \<Rightarrow> addr \<times> heap" where
  "alloc h ob = (length h, h @ [ob])"

subsection \<open>The builders\<close>

text \<open>
  \<^verbatim>\<open>DictionaryMember.IR.__init__\<close>. The parameter \<open>idl_type\<close> defaults to \<^verbatim>\<open>None\<close>,
  which the first assertion rejects. A \<^verbatim>\<open>LiteralConstant\<close> is a plain object, hence
  true in a Boolean context, so \<^verbatim>\<open>not default_value\<close> holds exactly for \<^verbatim>\<open>None\<close>.
\<close>

definition DictionaryMember_IR_init ::
  "heap \<Rightarrow> string \<Rightarrow> IdlType option \<Rightarrow> LiteralConstant option \<Rightarrow> addr option \<Rightarrow>
   addr option \<Rightarrow> addr option \<Rightarrow> error + (addr \<times> heap)" where
  "DictionaryMember_IR_init h identifier idl_type default_value extended_attributes
     component debug_info =
     (case idl_type of
        None \<Rightarrow> Inl AssertionError
      | Some t \<Rightarrow>
          if \<not> (default_value = None \<or> is_optional t) then Inl AssertionError
          else Inr (alloc h (DictionaryMemberIR
                 \<lparr>mir_identifier = identifier,
                  mir_extended_attributes = extended_attributes,
                  mir_code_generator_info = None,
                  mir_exposure = None,
                  mir_components = (case component of None \<Rightarrow> [] | Some c \<Rightarrow> [c]),
                  mir_debug_info = debug_info,
                  mir_idl_type = t,
                  mir_default_value = default_value\<rparr>)))"

definition is_RefById :: "heap \<Rightarrow> addr \<Rightarrow> bool" where
  "is_RefById h a = (case lookup h a of Some (RefById _) \<Rightarrow> True | _ \<Rightarrow> False)"

definition is_DictionaryMember_IR :: "heap \<Rightarrow> addr \<Rightarrow> bool" where
  "is_DictionaryMember_IR h a =
     (case lookup h a of Some (DictionaryMemberIR _) \<Rightarrow> True | _ \<Rightarrow> False)"


definition is_Dictionary :: "heap \<Rightarrow> addr \<Rightarrow> bool" where
  "is_Dictionary h a = (case lookup h a of Some (Dictionary _) \<Rightarrow> True | _ \<Rightarrow> False)"

definition is_DictionaryMember :: "heap \<Rightarrow> addr \<Rightarrow> bool" where
  "is_DictionaryMember h a =
     (case lookup h a of Some (DictionaryMember _) \<Rightarrow> True | _ \<Rightarrow> False)"

definition is_Payload :: "heap \<Rightarrow> addr \<Rightarrow> bool" where
  "is_Payload h a = (case lookup h a of Some (Payload _) \<Rightarrow> True | _ \<Rightarrow> False)"

text \<open>
  \<^verbatim>\<open>Dictionary.IR.__init__\<close>. The parameter \<open>own_members\<close> defaults to \<^verbatim>\<open>None\<close>, which
  is neither a list nor a tuple. The builder keeps its own list of the given member
  builders (\<^verbatim>\<open>list(own_members)\<close>).
\<close>

definition Dictionary_IR_init ::
  "heap \<Rightarrow> string \<Rightarrow> bool \<Rightarrow> addr option \<Rightarrow> addr list option \<Rightarrow> addr option \<Rightarrow>
   addr option \<Rightarrow> addr option \<Rightarrow> error + (addr \<times> heap)" where
  "Dictionary_IR_init h identifier is_partial inherited own_members extended_attributes
     component debug_info =
     (if \<not> (case inherited of None \<Rightarrow> True | Some r \<Rightarrow> is_RefById h r) then Inl AssertionError
      else case own_members of
        None \<Rightarrow> Inl AssertionError
      | Some ms \<Rightarrow>
          if \<not> list_all (is_DictionaryMember_IR h) ms then Inl AssertionError
          else Inr (alloc h (DictionaryIR
                 \<lparr>ir_identifier = identifier,
                  ir_kind = (if is_partial then PARTIAL_DICTIONARY else DICTIONARY),
                  ir_extended_attributes = extended_attributes,
                  ir_code_generator_info = None,
                  ir_exposure = None,
                  ir_components = (case component of None \<Rightarrow> [] | Some c \<Rightarrow> [c]),
                  ir_debug_info = debug_info,
                  ir_is_partial = is_partial,
                  ir_inherited = inherited,
                  ir_own_members = ms\<rparr>)))"

subsection \<open>Copying a builder\<close>

text \<open>
  The payloads that an object holds, in the order of its attributes, and the object with
  every payload replaced through a function.
\<close>

definition opt_list :: "'a option \<Rightarrow> 'a list" where
  "opt_list x = (case x of None \<Rightarrow> [] | Some a \<Rightarrow> [a])"

definition payloads_member_ir :: "'p dictionary_member_ir \<Rightarrow> 'p list" where
  "payloads_member_ir m =
     opt_list (mir_extended_attributes m) @ opt_list (mir_code_generator_info m) @
     opt_list (mir_exposure m) @ mir_components m @ opt_list (mir_debug_info m)"

definition map_member_ir :: "('p \<Rightarrow> 'q) \<Rightarrow> 'p dictionary_member_ir \<Rightarrow> 'q dictionary_member_ir" where
  "map_member_ir f m =
     \<lparr>mir_identifier = mir_identifier m,
      mir_extended_attributes = map_option f (mir_extended_attributes m),
      mir_code_generator_info = map_option f (mir_code_generator_info m),
      mir_exposure = map_option f (mir_exposure m),
      mir_components = map f (mir_components m),
      mir_debug_info = map_option f (mir_debug_info m),
      mir_idl_type = mir_idl_type m,
      mir_default_value = mir_default_value m\<rparr>"

definition payloads_ir :: "'p dictionary_ir \<Rightarrow> 'p list" where
  "payloads_ir b =
     opt_list (ir_extended_attributes b) @ opt_list (ir_code_generator_info b) @
     opt_list (ir_exposure b) @ ir_components b @ opt_list (ir_debug_info b)"

definition map_ir :: "('p \<Rightarrow> 'q) \<Rightarrow> 'p dictionary_ir \<Rightarrow> 'q dictionary_ir" where
  "map_ir f b =
     \<lparr>ir_identifier = ir_identifier b,
      ir_kind = ir_kind b,
      ir_extended_attributes = map_option f (ir_extended_attributes b),
      ir_code_generator_info = map_option f (ir_code_generator_info b),
      ir_exposure = map_option f (ir_exposure b),
      ir_components = map f (ir_components b),
      ir_debug_info = map_option f (ir_debug_info b),
      ir_is_partial = ir_is_partial b,
      ir_inherited = ir_inherited b,
      ir_own_members = ir_own_members b\<rparr>"

definition payloads_member :: "'p dictionary_member \<Rightarrow> 'p list" where
  "payloads_member m =
     opt_list (mem_extended_attributes m) @ opt_list (mem_code_generator_info m) @
     opt_list (mem_exposure m) @ mem_components m @ opt_list (mem_debug_info m)"

definition map_member :: "('p \<Rightarrow> 'q) \<Rightarrow> 'p dictionary_member \<Rightarrow> 'q dictionary_member" where
  "map_member f m =
     \<lparr>mem_identifier = mem_identifier m,
      mem_extended_attributes = map_option f (mem_extended_attributes m),
      mem_code_generator_info = map_option f (mem_code_generator_info m),
      mem_exposure = map_option f (mem_exposure m),
      mem_owner = mem_owner m,
      mem_components = map f (mem_components m),
      mem_debug_info = map_option f (mem_debug_info m),
      mem_idl_type = mem_idl_type m,
      mem_default_value = mem_default_value m\<rparr>"

definition payloads_dictionary :: "'p dictionary \<Rightarrow> 'p list" where
  "payloads_dictionary d =
     opt_list (dict_extended_attributes d) @ opt_list (dict_code_generator_info d) @
     opt_list (dict_exposure d) @ dict_components d @ opt_list (dict_debug_info d)"

definition map_dictionary :: "('p \<Rightarrow> 'q) \<Rightarrow> 'p dictionary \<Rightarrow> 'q dictionary" where
  "map_dictionary f d =
     \<lparr>dict_identifier = dict_identifier d,
      dict_extended_attributes = map_option f (dict_extended_attributes d),
      dict_code_generator_info = map_option f (dict_code_generator_info d),
      dict_exposure = map_option f (dict_exposure d),
      dict_components = map f (dict_components d),
      dict_debug_info = map_option f (dict_debug_info d),
      dict_inherited = dict_inherited d,
      dict_own_members = dict_own_members d\<rparr>"

text \<open>The content of the payload at an address.\<close>

definition payload_value :: "heap \<Rightarrow> addr \<Rightarrow> payload" where
  "payload_value h a = (case lookup h a of Some (Payload p) \<Rightarrow> p | _ \<Rightarrow> [])"

text \<open>
  The payloads \<open>ps\<close> are new with respect to a store of size \<open>n\<close>: each of them is a
  payload object at an address that did not exist in that store.
\<close>

definition fresh_payloads :: "nat \<Rightarrow> heap \<Rightarrow> addr list \<Rightarrow> bool" where
  "fresh_payloads n h ps = list_all (\<lambda>p. n \<le> p \<and> is_Payload h p) ps"

text \<open>
  Modelled from the spec: the function \<^verbatim>\<open>make_copy\<close> is defined elsewhere. The spec
  describes a deep-copy utility that produces a structurally independent copy of a
  builder's scalar and aggregate fields, while the inherited link stays an indirect
  reference that the external resolver resolves later. The copy of a builder is a new
  object; every payload that the builder holds is copied to a new payload object with the
  same content, and the copy holds the new payloads where the builder held the old ones
  (a payload held twice is copied once: \<open>position\<close> finds its first copy). The copy of a
  dictionary builder owns new copies of its member builders, in the same order, made in
  the same way, and shares the reference object. Anything that is not a builder, a
  dictionary builder whose member list holds anything but member builders, and a builder
  that holds anything but a payload where a payload belongs, are refused.
\<close>

fun get_member_irs :: "heap \<Rightarrow> addr list \<Rightarrow> addr dictionary_member_ir list option" where
  "get_member_irs h [] = Some []"
| "get_member_irs h (a # as) =
     (case lookup h a of
        Some (DictionaryMemberIR m) \<Rightarrow>
          (case get_member_irs h as of None \<Rightarrow> None | Some ms \<Rightarrow> Some (m # ms))
      | _ \<Rightarrow> None)"

fun position :: "'a \<Rightarrow> 'a list \<Rightarrow> nat" where
  "position a [] = 0"
| "position a (x # xs) = (if a = x then 0 else Suc (position a xs))"

definition make_copy :: "heap \<Rightarrow> addr \<Rightarrow> error + (addr \<times> heap)" where
  "make_copy h a =
     (case lookup h a of
        Some (DictionaryMemberIR m) \<Rightarrow>
          (let ps = payloads_member_ir m in
           if \<not> list_all (is_Payload h) ps then Inl AssertionError
           else Inr (alloc (h @ map (nth h) ps)
                      (DictionaryMemberIR (map_member_ir (\<lambda>p. length h + position p ps) m))))
      | Some (DictionaryIR b) \<Rightarrow>
          (case get_member_irs h (ir_own_members b) of
             None \<Rightarrow> Inl AssertionError
           | Some ms \<Rightarrow>
               (let ps = payloads_ir b @ concat (map payloads_member_ir ms) in
                if \<not> list_all (is_Payload h) ps then Inl AssertionError
                else
                  (let new = (\<lambda>p. length h + position p ps);
                       h1 = h @ map (nth h) ps
                   in Inr (alloc (h1 @ map (\<lambda>m. DictionaryMemberIR (map_member_ir new m)) ms)
                             (DictionaryIR
                                ((map_ir new b)
                                   \<lparr>ir_own_members := [length h1 ..< length h1 + length ms]\<rparr>))))))
      | _ \<Rightarrow> Inl AssertionError)"

subsection \<open>Freezing\<close>

text \<open>
  \<^verbatim>\<open>DictionaryMember.__init__\<close>: both arguments are checked, the builder is copied, and
  the new member takes every attribute from the copy and the owner from the argument.
  Modelled from the spec: the classes \<^verbatim>\<open>CodeGeneratorInfo\<close> and \<^verbatim>\<open>Exposure\<close>, which wrap
  two of the copied payloads, are defined elsewhere; a wrapper stands for the copy that
  it wraps.
\<close>

definition DictionaryMember_of :: "'p dictionary_member_ir \<Rightarrow> addr \<Rightarrow> 'p dictionary_member" where
  "DictionaryMember_of ir owner =
     \<lparr>mem_identifier = mir_identifier ir,
      mem_extended_attributes = mir_extended_attributes ir,
      mem_code_generator_info = mir_code_generator_info ir,
      mem_exposure = mir_exposure ir,
      mem_owner = owner,
      mem_components = mir_components ir,
      mem_debug_info = mir_debug_info ir,
      mem_idl_type = mir_idl_type ir,
      mem_default_value = mir_default_value ir\<rparr>"

definition DictionaryMember_init :: "heap \<Rightarrow> addr \<Rightarrow> addr \<Rightarrow> error + (addr \<times> heap)" where
  "DictionaryMember_init h ir owner =
     (if \<not> is_DictionaryMember_IR h ir then Inl AssertionError
      else if \<not> is_Dictionary h owner then Inl AssertionError
      else case make_copy h ir of
        Inl e \<Rightarrow> Inl e
      | Inr (ir', h') \<Rightarrow>
          (case lookup h' ir' of
             Some (DictionaryMemberIR m) \<Rightarrow>
               Inr (alloc h' (DictionaryMember (DictionaryMember_of m owner)))
           | _ \<Rightarrow> Inl AttributeError))"

text \<open>
  The list comprehension of \<^verbatim>\<open>Dictionary.__init__\<close>: one \<^verbatim>\<open>DictionaryMember\<close> per member
  builder, in the order of the list, all with the same owner.
\<close>

fun DictionaryMember_list :: "heap \<Rightarrow> addr list \<Rightarrow> addr \<Rightarrow> error + (addr list \<times> heap)" where
  "DictionaryMember_list h [] owner = Inr ([], h)"
| "DictionaryMember_list h (member_ir # rest) owner =
     (case DictionaryMember_init h member_ir owner of
        Inl e \<Rightarrow> Inl e
      | Inr (m, h') \<Rightarrow>
          (case DictionaryMember_list h' rest owner of
             Inl e \<Rightarrow> Inl e
           | Inr (ms, h'') \<Rightarrow> Inr (m # ms, h'')))"

text \<open>
  \<^verbatim>\<open>Dictionary.__init__\<close>. The object \<open>self\<close> exists before its members are made, since
  each of them receives it as owner; its member tuple is assigned last. The attributes
  that do not depend on the members are those of \<open>Dictionary_of\<close>.
\<close>

definition Dictionary_of :: "'p dictionary_ir \<Rightarrow> addr list \<Rightarrow> 'p dictionary" where
  "Dictionary_of ir ms =
     \<lparr>dict_identifier = ir_identifier ir,
      dict_extended_attributes = ir_extended_attributes ir,
      dict_code_generator_info = ir_code_generator_info ir,
      dict_exposure = ir_exposure ir,
      dict_components = ir_components ir,
      dict_debug_info = ir_debug_info ir,
      dict_inherited = ir_inherited ir,
      dict_own_members = ms\<rparr>"

definition Dictionary_init :: "heap \<Rightarrow> addr \<Rightarrow> error + (addr \<times> heap)" where
  "Dictionary_init h ir =
     (case lookup h ir of
        Some (DictionaryIR b) \<Rightarrow>
          if ir_is_partial b then Inl AssertionError
          else (case make_copy h ir of
             Inl e \<Rightarrow> Inl e
           | Inr (ir', h1) \<Rightarrow>
               (case lookup h1 ir' of
                  Some (DictionaryIR c) \<Rightarrow>
                    (case alloc h1 (Dictionary (Dictionary_of c [])) of
                       (self, h2) \<Rightarrow>
                         (case DictionaryMember_list h2 (ir_own_members c) self of
                            Inl e \<Rightarrow> Inl e
                          | Inr (ms, h3) \<Rightarrow>
                              Inr (self, h3[self := Dictionary (Dictionary_of c ms)])))
                | _ \<Rightarrow> Inl AttributeError))
      | _ \<Rightarrow> Inl AssertionError)"

subsection \<open>Queries\<close>

text \<open>
  Modelled from the spec: \<^verbatim>\<open>RefById.target_object\<close> is defined elsewhere. The spec
  describes the identifier-resolution capability as returning the already-built target
  entity, and a resolution failure as an error of that collaborator that is propagated
  unchanged.
\<close>

definition target_object :: "heap \<Rightarrow> addr \<Rightarrow> error + addr" where
  "target_object h r =
     (case lookup h r of
        Some (RefById x) \<Rightarrow>
          (case ref_target_object x of None \<Rightarrow> Inl ResolutionError | Some t \<Rightarrow> Inr t)
      | _ \<Rightarrow> Inl AttributeError)"

text \<open>The attribute \<^verbatim>\<open>identifier\<close>, which every class of the file has.\<close>

definition identifier_of :: "heap \<Rightarrow> addr \<Rightarrow> error + string" where
  "identifier_of h a =
     (case lookup h a of
        Some (DictionaryIR x) \<Rightarrow> Inr (ir_identifier x)
      | Some (DictionaryMemberIR x) \<Rightarrow> Inr (mir_identifier x)
      | Some (RefById x) \<Rightarrow> Inr (ref_identifier x)
      | Some (Dictionary x) \<Rightarrow> Inr (dict_identifier x)
      | Some (DictionaryMember x) \<Rightarrow> Inr (mem_identifier x)
      | _ \<Rightarrow> Inl AttributeError)"

text \<open>
  \<^verbatim>\<open>Dictionary.inherited\<close>: a reference object is true in a Boolean context, so the
  target is asked for whenever a reference is stored.
\<close>

definition inherited :: "heap \<Rightarrow> addr \<Rightarrow> error + addr option" where
  "inherited h self =
     (case lookup h self of
        Some (Dictionary d) \<Rightarrow>
          (case dict_inherited d of
             None \<Rightarrow> Inr None
           | Some r \<Rightarrow> (case target_object h r of Inl e \<Rightarrow> Inl e | Inr t \<Rightarrow> Inr (Some t)))
      | _ \<Rightarrow> Inl AttributeError)"

definition own_members :: "heap \<Rightarrow> addr \<Rightarrow> error + addr list" where
  "own_members h self =
     (case lookup h self of
        Some (Dictionary d) \<Rightarrow> Inr (dict_own_members d)
      | _ \<Rightarrow> Inl AttributeError)"

text \<open>
  \<^verbatim>\<open>sorted(ms, key=lambda member: member.identifier)\<close>: the keys are read first, one per
  element and in order, then the elements are sorted by key; the sort is stable.
\<close>

fun identifiers :: "heap \<Rightarrow> addr list \<Rightarrow> error + string list" where
  "identifiers h [] = Inr []"
| "identifiers h (m # ms) =
     (case identifier_of h m of
        Inl e \<Rightarrow> Inl e
      | Inr k \<Rightarrow> (case identifiers h ms of Inl e \<Rightarrow> Inl e | Inr ks \<Rightarrow> Inr (k # ks)))"

definition sorted_by_identifier :: "heap \<Rightarrow> addr list \<Rightarrow> error + addr list" where
  "sorted_by_identifier h ms =
     (case identifiers h ms of
        Inl e \<Rightarrow> Inl e
      | Inr ks \<Rightarrow> Inr (map snd (sort_key fst (zip ks ms))))"

text \<open>
  The local function \<^verbatim>\<open>collect_inherited_members\<close> of \<^verbatim>\<open>Dictionary.members\<close>. It
  follows the parent links with no guard against a cycle, so it is a partial function:
  \<open>None\<close> stands for a call that does not return, \<open>Some (Inl e)\<close> for a raised error.
\<close>

partial_function (option) collect_inherited_members ::
  "heap \<Rightarrow> addr option \<Rightarrow> (error + addr list) option" where
  "collect_inherited_members h dictionary =
     (case dictionary of
        None \<Rightarrow> Some (Inr [])
      | Some d \<Rightarrow>
          (case inherited h d of
             Inl e \<Rightarrow> Some (Inl e)
           | Inr parent \<Rightarrow>
               Option.bind (collect_inherited_members h parent)
                 (\<lambda>r. case r of
                    Inl e \<Rightarrow> Some (Inl e)
                  | Inr inh \<Rightarrow>
                      (case own_members h d of
                         Inl e \<Rightarrow> Some (Inl e)
                       | Inr own \<Rightarrow>
                           (case sorted_by_identifier h own of
                              Inl e \<Rightarrow> Some (Inl e)
                            | Inr s \<Rightarrow> Some (Inr (inh @ s)))))))"

declare collect_inherited_members.simps [code]

definition members :: "heap \<Rightarrow> addr \<Rightarrow> (error + addr list) option" where
  "members h self = collect_inherited_members h (Some self)"

definition is_dictionary :: "heap \<Rightarrow> addr \<Rightarrow> error + bool" where
  "is_dictionary h self =
     (case lookup h self of Some (Dictionary d) \<Rightarrow> Inr True | _ \<Rightarrow> Inl AttributeError)"

definition idl_type :: "heap \<Rightarrow> addr \<Rightarrow> error + IdlType" where
  "idl_type h self =
     (case lookup h self of
        Some (DictionaryMember m) \<Rightarrow> Inr (mem_idl_type m)
      | _ \<Rightarrow> Inl AttributeError)"

definition is_required :: "heap \<Rightarrow> addr \<Rightarrow> error + bool" where
  "is_required h self =
     (case lookup h self of
        Some (DictionaryMember m) \<Rightarrow> Inr (\<not> is_optional (mem_idl_type m))
      | _ \<Rightarrow> Inl AttributeError)"

definition default_value :: "heap \<Rightarrow> addr \<Rightarrow> error + LiteralConstant option" where
  "default_value h self =
     (case lookup h self of
        Some (DictionaryMember m) \<Rightarrow> Inr (mem_default_value m)
      | _ \<Rightarrow> Inl AttributeError)"

definition owner :: "heap \<Rightarrow> addr \<Rightarrow> error + addr" where
  "owner h self =
     (case lookup h self of
        Some (DictionaryMember m) \<Rightarrow> Inr (mem_owner m)
      | _ \<Rightarrow> Inl AttributeError)"

text \<open>
  The attributes that the mix-in classes \<^verbatim>\<open>WithExtendedAttributes\<close>,
  \<^verbatim>\<open>WithCodeGeneratorInfo\<close>, \<^verbatim>\<open>WithExposure\<close>, \<^verbatim>\<open>WithComponent\<close> and
  \<^verbatim>\<open>WithDebugInfo\<close> give to builders and frozen objects alike, read through to the
  contents of the payloads, and the private attribute \<^verbatim>\<open>_inherited\<close> of a dictionary.
\<close>

type_synonym attributes =
  "payload option \<times> payload option \<times> payload option \<times> payload list \<times> payload option"

definition attributes :: "heap \<Rightarrow> addr \<Rightarrow> error + attributes" where
  "attributes h a =
     (case lookup h a of
        Some (DictionaryIR x) \<Rightarrow>
          Inr (map_option (payload_value h) (ir_extended_attributes x),
               map_option (payload_value h) (ir_code_generator_info x),
               map_option (payload_value h) (ir_exposure x),
               map (payload_value h) (ir_components x),
               map_option (payload_value h) (ir_debug_info x))
      | Some (DictionaryMemberIR x) \<Rightarrow>
          Inr (map_option (payload_value h) (mir_extended_attributes x),
               map_option (payload_value h) (mir_code_generator_info x),
               map_option (payload_value h) (mir_exposure x),
               map (payload_value h) (mir_components x),
               map_option (payload_value h) (mir_debug_info x))
      | Some (Dictionary x) \<Rightarrow>
          Inr (map_option (payload_value h) (dict_extended_attributes x),
               map_option (payload_value h) (dict_code_generator_info x),
               map_option (payload_value h) (dict_exposure x),
               map (payload_value h) (dict_components x),
               map_option (payload_value h) (dict_debug_info x))
      | Some (DictionaryMember x) \<Rightarrow>
          Inr (map_option (payload_value h) (mem_extended_attributes x),
               map_option (payload_value h) (mem_code_generator_info x),
               map_option (payload_value h) (mem_exposure x),
               map (payload_value h) (mem_components x),
               map_option (payload_value h) (mem_debug_info x))
      | _ \<Rightarrow> Inl AttributeError)"

definition inherited_ref :: "heap \<Rightarrow> addr \<Rightarrow> error + addr option" where
  "inherited_ref h self =
     (case lookup h self of
        Some (Dictionary d) \<Rightarrow> Inr (dict_inherited d)
      | _ \<Rightarrow> Inl AttributeError)"

subsection \<open>What can happen to the store\<close>

text \<open>
  A builder is mutable: any attribute of a \<^verbatim>\<open>Dictionary.IR\<close> or of a
  \<^verbatim>\<open>DictionaryMember.IR\<close> can be assigned, the member list included. The class of an
  object does not change.
\<close>

inductive builder_mutation :: "heap \<Rightarrow> heap \<Rightarrow> bool" where
  assign_Dictionary_IR:
    "lookup h a = Some (DictionaryIR b) \<Longrightarrow> builder_mutation h (h[a := DictionaryIR b'])"
| assign_DictionaryMember_IR:
    "lookup h a = Some (DictionaryMemberIR m) \<Longrightarrow>
     builder_mutation h (h[a := DictionaryMemberIR m'])"


text \<open>
  One step of a program that uses the file: it makes a payload or changes one in place,
  makes a builder, assigns to a builder, freezes a builder, or the external collaborator
  makes or resolves a reference. No method of the two frozen classes assigns to an
  attribute after \<^verbatim>\<open>__init__\<close>.
\<close>

inductive step :: "heap \<Rightarrow> heap \<Rightarrow> bool" where
  new_member_builder:
    "DictionaryMember_IR_init h n t v e c i = Inr (a, h') \<Longrightarrow> step h h'"
| new_dictionary_builder:
    "Dictionary_IR_init h n p r ms e c i = Inr (a, h') \<Longrightarrow> step h h'"
| mutate_builder:
    "builder_mutation h h' \<Longrightarrow> step h h'"
| new_reference:
    "step h (h @ [RefById r])"
| resolve_reference:
    "lookup h a = Some (RefById r) \<Longrightarrow> step h (h[a := RefById r'])"
| freeze_member:
    "DictionaryMember_init h ir ow = Inr (m, h') \<Longrightarrow> step h h'"
| freeze_dictionary:
    "Dictionary_init h ir = Inr (d, h') \<Longrightarrow> step h h'"
| new_payload:
    "step h (h @ [Payload p])"
| change_payload:
    "lookup h a = Some (Payload p) \<Longrightarrow> step h (h[a := Payload p'])"


definition reachable :: "heap \<Rightarrow> bool" where
  "reachable h = step\<^sup>*\<^sup>* [] h"

text \<open>The frozen classes, as opposed to the builders and the references.\<close>

definition is_frozen :: "obj \<Rightarrow> bool" where
  "is_frozen ob = (case ob of Dictionary _ \<Rightarrow> True | DictionaryMember _ \<Rightarrow> True | _ \<Rightarrow> False)"

text \<open>
  The invariant of the frozen part of the store: the members of every dictionary are
  \<^verbatim>\<open>DictionaryMember\<close> objects that name this dictionary as their owner.
\<close>

definition frozen_ok :: "heap \<Rightarrow> bool" where
  "frozen_ok h =
     list_all
       (\<lambda>d. case lookup h d of
              Some (Dictionary x) \<Rightarrow> list_all (\<lambda>m. owner h m = Inr d) (dict_own_members x)
            | _ \<Rightarrow> True)
       [0 ..< length h]"

subsection \<open>What can be observed of a frozen object\<close>




text \<open>
  The contents of a dictionary builder: its attribute values and, in the order of its
  list, those of its member builders, with the content of each payload in the place of
  its address. The addresses of the member builders and of the payloads are left out, so
  that two builders with the same contents need not be, or hold, the same objects.
\<close>

definition builder_contents ::
  "heap \<Rightarrow> addr \<Rightarrow> (payload dictionary_ir \<times> payload dictionary_member_ir list) option" where
  "builder_contents h ir =
     (case lookup h ir of
        Some (DictionaryIR b) \<Rightarrow>
          (case get_member_irs h (ir_own_members b) of
             None \<Rightarrow> None
           | Some ms \<Rightarrow>
               if list_all (is_Payload h) (payloads_ir b @ concat (map payloads_member_ir ms))
               then Some (map_ir (payload_value h) (b\<lparr>ir_own_members := []\<rparr>),
                          map (map_member_ir (payload_value h)) ms)
               else None)
      | _ \<Rightarrow> None)"

text \<open>
  The fields of a frozen dictionary that do not depend on which objects it and its
  members are: the identifier, the attributes, the stored reference to the parent, and
  for each own member, in order, the identifier, the attributes, the type, whether it is
  required, and the default value.
\<close>

type_synonym member_fields =
  "(error + string) \<times> (error + attributes) \<times> (error + IdlType) \<times> (error + bool) \<times>
   (error + LiteralConstant option)"

definition DictionaryMember_fields :: "heap \<Rightarrow> addr \<Rightarrow> member_fields" where
  "DictionaryMember_fields h m =
     (identifier_of h m, attributes h m, idl_type h m, is_required h m, default_value h m)"

definition Dictionary_fields ::
  "heap \<Rightarrow> addr \<Rightarrow>
   (error + string) \<times> (error + attributes) \<times> (error + addr option) \<times> member_fields list" where
  "Dictionary_fields h d =
     (identifier_of h d, attributes h d, inherited_ref h d,
      map (DictionaryMember_fields h) (case own_members h d of Inr ms \<Rightarrow> ms | Inl _ \<Rightarrow> []))"

definition build_fields ::
  "heap \<Rightarrow> addr \<Rightarrow>
   error + (error + string) \<times> (error + attributes) \<times> (error + addr option) \<times>
           member_fields list" where
  "build_fields h ir =
     (case Dictionary_init h ir of
        Inl e \<Rightarrow> Inl e
      | Inr (d, h') \<Rightarrow> Inr (Dictionary_fields h' d))"

subsection \<open>The chain of parents and the flattened view as the specification words it\<close>

text \<open>
  \<open>parent_chain h d ps\<close>: the ancestors of \<open>d\<close> are \<open>ps\<close>, the parent first; the last one
  has no parent. Such a list exists exactly when following the parent links from \<open>d\<close>
  comes to an end.
\<close>

fun parent_chain :: "heap \<Rightarrow> addr \<Rightarrow> addr list \<Rightarrow> bool" where
  "parent_chain h d [] = (inherited h d = Inr None)"
| "parent_chain h d (p # ps) = (inherited h d = Inr (Some p) \<and> parent_chain h p ps)"

text \<open>
  The specification defines the flattened view by recursion on the parent:
  \<^verbatim>\<open>members(D) = members(parent(D)) ++ sorted(ownMembers(D), by identifier)\<close> and
  \<^verbatim>\<open>members(absent) = empty\<close>. Here the recursion runs over the dictionary followed by
  its ancestors; the empty list stands for the absent dictionary.
\<close>

definition spec_ownMembers :: "heap \<Rightarrow> addr \<Rightarrow> addr list" where
  "spec_ownMembers h d = (case lookup h d of Some (Dictionary x) \<Rightarrow> dict_own_members x | _ \<Rightarrow> [])"

definition spec_identifier :: "heap \<Rightarrow> addr \<Rightarrow> string" where
  "spec_identifier h m =
     (case lookup h m of Some (DictionaryMember y) \<Rightarrow> mem_identifier y | _ \<Rightarrow> [])"

fun spec_members :: "heap \<Rightarrow> addr list \<Rightarrow> addr list" where
  "spec_members h [] = []"
| "spec_members h (d # ancestors) =
     spec_members h ancestors @ sort_key (spec_identifier h) (spec_ownMembers h d)"

text \<open>
  What freezing makes of the contents of a builder: the fields of the dictionary as a
  function of the contents alone.
\<close>

definition member_fields_of :: "payload dictionary_member_ir \<Rightarrow> member_fields" where
  "member_fields_of b =
     (Inr (mir_identifier b),
      Inr (mir_extended_attributes b, mir_code_generator_info b, mir_exposure b,
           mir_components b, mir_debug_info b),
      Inr (mir_idl_type b), Inr (\<not> is_optional (mir_idl_type b)), Inr (mir_default_value b))"

definition fields_of ::
  "payload dictionary_ir \<times> payload dictionary_member_ir list \<Rightarrow>
   (error + string) \<times> (error + attributes) \<times> (error + addr option) \<times> member_fields list" where
  "fields_of c =
     (Inr (ir_identifier (fst c)),
      Inr (ir_extended_attributes (fst c), ir_code_generator_info (fst c), ir_exposure (fst c),
           ir_components (fst c), ir_debug_info (fst c)),
      Inr (ir_inherited (fst c)),
      map member_fields_of (snd c))"

subsection \<open>A scenario\<close>

text \<open>
  The store of the member-order scenario of the specification: a dictionary \<^verbatim>\<open>Base\<close> with
  the own members \<^verbatim>\<open>z, a\<close> and a dictionary \<^verbatim>\<open>Derived\<close> with the own members \<^verbatim>\<open>m, b\<close>
  that inherits from \<^verbatim>\<open>Base\<close> through the reference at address 0. First the builders
  alone, then the store after \<^verbatim>\<open>Base\<close> has been frozen, then after \<^verbatim>\<open>Derived\<close> has been
  frozen too, and finally after the resolver has pointed the reference at the frozen
  \<^verbatim>\<open>Base\<close>, which is the order in which a compiler run does it.
\<close>

definition member_builder :: "string \<Rightarrow> 'p dictionary_member_ir" where
  "member_builder n =
     \<lparr>mir_identifier = n, mir_extended_attributes = None, mir_code_generator_info = None,
      mir_exposure = None, mir_components = [], mir_debug_info = None,
      mir_idl_type = \<lparr>type_name = ''long'', is_optional = False\<rparr>,
      mir_default_value = None\<rparr>"

definition dictionary_builder :: "string \<Rightarrow> addr option \<Rightarrow> addr list \<Rightarrow> 'p dictionary_ir" where
  "dictionary_builder n r ms =
     \<lparr>ir_identifier = n, ir_kind = DICTIONARY, ir_extended_attributes = None,
      ir_code_generator_info = None, ir_exposure = None, ir_components = [],
      ir_debug_info = None, ir_is_partial = False, ir_inherited = r, ir_own_members = ms\<rparr>"

definition P5_builders :: heap where
  "P5_builders =
     [RefById \<lparr>ref_identifier = ''Base'', ref_target_object = None\<rparr>,
      DictionaryMemberIR (member_builder ''z''),
      DictionaryMemberIR (member_builder ''a''),
      DictionaryIR (dictionary_builder ''Base'' None [1, 2]),
      DictionaryMemberIR (member_builder ''m''),
      DictionaryMemberIR (member_builder ''b''),
      DictionaryIR (dictionary_builder ''Derived'' (Some 0) [4, 5])]"

definition P5_base :: heap where
  "P5_base = (case Dictionary_init P5_builders 3 of Inr (d, h) \<Rightarrow> h | Inl e \<Rightarrow> [])"

definition P5_derived :: heap where
  "P5_derived = (case Dictionary_init P5_base 6 of Inr (d, h) \<Rightarrow> h | Inl e \<Rightarrow> [])"

definition P5_resolved :: heap where
  "P5_resolved =
     P5_derived[0 := RefById \<lparr>ref_identifier = ''Base'', ref_target_object = Some 10\<rparr>]"







text \<open>A store in which a dictionary is its own parent.\<close>

definition self_parent :: heap where
  "self_parent =
     [RefById \<lparr>ref_identifier = ''Loop'', ref_target_object = Some 1\<rparr>,
      Dictionary \<lparr>dict_identifier = ''Loop'', dict_extended_attributes = None,
        dict_code_generator_info = None, dict_exposure = None, dict_components = [],
        dict_debug_info = None, dict_inherited = Some 0, dict_own_members = []\<rparr>]"

section \<open>Properties\<close>

subsection \<open>The store\<close>

lemma lookup_Some_less: "lookup h a = Some ob \<Longrightarrow> a < length h"
  by (simp add: lookup_def split: if_splits)

lemma lookup_append_old: "lookup h a = Some ob \<Longrightarrow> lookup (h @ ext) a = Some ob"
  by (simp add: lookup_def nth_append split: if_splits)

lemma lookup_append_new: "lookup (h @ ob # ext) (length h) = Some ob"
  by (simp add: lookup_def)

lemma lookup_update_other: "a \<noteq> b \<Longrightarrow> lookup (h[b := ob]) a = lookup h a"
  by (simp add: lookup_def)


lemma get_member_irs_length: "get_member_irs h as = Some ms \<Longrightarrow> length ms = length as"
  by (induction as arbitrary: ms) (auto split: option.splits obj.splits)

lemma get_member_irs_all2:
  "get_member_irs h as = Some ms \<longleftrightarrow> list_all2 (\<lambda>a m. lookup h a = Some (DictionaryMemberIR m)) as ms"
proof (induction as arbitrary: ms)
  case Nil
  then show ?case by auto
next
  case (Cons a as)
  show ?case
  proof (cases ms)
    case Nil
    then show ?thesis by (auto split: option.splits obj.splits)
  next
    case (Cons m ms')
    then show ?thesis using Cons.IH[of ms'] by (auto split: option.splits obj.splits)
  qed
qed

subsection \<open>Payloads and their copies\<close>

lemma set_opt_list [simp]: "set (opt_list x) = set_option x"
  by (cases x) (simp_all add: opt_list_def)

lemma map_opt_list [simp]: "map f (opt_list x) = opt_list (map_option f x)"
  by (cases x) (simp_all add: opt_list_def)

lemma map_option_cong_set: "(\<And>p. p \<in> set_option x \<Longrightarrow> f p = g p) \<Longrightarrow> map_option f x = map_option g x"
  by (cases x) simp_all

lemma map_member_ir_cong:
  assumes "\<And>p. p \<in> set (payloads_member_ir m) \<Longrightarrow> f p = g p"
  shows "map_member_ir f m = map_member_ir g m"
  using assms
  by (auto simp: map_member_ir_def payloads_member_ir_def intro!: map_option_cong_set)

lemma map_member_ir_comp:
  "map_member_ir f (map_member_ir g m) = map_member_ir (\<lambda>p. f (g p)) m"
  by (simp add: map_member_ir_def option.map_comp comp_def)

lemma payloads_map_member_ir:
  "payloads_member_ir (map_member_ir f m) = map f (payloads_member_ir m)"
  by (simp add: map_member_ir_def payloads_member_ir_def)

lemma map_ir_cong:
  assumes "\<And>p. p \<in> set (payloads_ir b) \<Longrightarrow> f p = g p"
  shows "map_ir f b = map_ir g b"
  using assms
  by (auto simp: map_ir_def payloads_ir_def intro!: map_option_cong_set)

lemma map_ir_comp: "map_ir f (map_ir g b) = map_ir (\<lambda>p. f (g p)) b"
  by (simp add: map_ir_def option.map_comp comp_def)

lemma payloads_map_ir: "payloads_ir (map_ir f b) = map f (payloads_ir b)"
  by (simp add: map_ir_def payloads_ir_def)

lemma map_ir_own_members_upd:
  "map_ir f (b\<lparr>ir_own_members := as\<rparr>) = (map_ir f b)\<lparr>ir_own_members := as\<rparr>"
  by (simp add: map_ir_def)

lemma payloads_ir_own_members_upd [simp]:
  "payloads_ir (b\<lparr>ir_own_members := as\<rparr>) = payloads_ir b"
  by (simp add: payloads_ir_def)

lemma map_ir_fields [simp]:
  "ir_identifier (map_ir f b) = ir_identifier b" "ir_is_partial (map_ir f b) = ir_is_partial b"
  "ir_inherited (map_ir f b) = ir_inherited b" "ir_own_members (map_ir f b) = ir_own_members b"
  by (simp_all add: map_ir_def)

lemma map_member_cong:
  assumes "\<And>p. p \<in> set (payloads_member m) \<Longrightarrow> f p = g p"
  shows "map_member f m = map_member g m"
  using assms
  by (auto simp: map_member_def payloads_member_def intro!: map_option_cong_set)

lemma map_dictionary_cong:
  assumes "\<And>p. p \<in> set (payloads_dictionary d) \<Longrightarrow> f p = g p"
  shows "map_dictionary f d = map_dictionary g d"
  using assms
  by (auto simp: map_dictionary_def payloads_dictionary_def intro!: map_option_cong_set)

lemma map_DictionaryMember_of:
  "map_member f (DictionaryMember_of m ow) = DictionaryMember_of (map_member_ir f m) ow"
  by (simp add: map_member_def DictionaryMember_of_def map_member_ir_def)

lemma payloads_DictionaryMember_of:
  "payloads_member (DictionaryMember_of m ow) = payloads_member_ir m"
  by (simp add: payloads_member_def DictionaryMember_of_def payloads_member_ir_def)

lemma map_Dictionary_of:
  "map_dictionary f (Dictionary_of b ms) = Dictionary_of (map_ir f b) ms"
  by (simp add: map_dictionary_def Dictionary_of_def map_ir_def)

lemma payloads_Dictionary_of: "payloads_dictionary (Dictionary_of b ms) = payloads_ir b"
  by (simp add: payloads_dictionary_def Dictionary_of_def payloads_ir_def)

lemma Dictionary_of_own_members_upd [simp]:
  "Dictionary_of (b\<lparr>ir_own_members := as\<rparr>) ms = Dictionary_of b ms"
  by (simp add: Dictionary_of_def)

lemma map_member_fields [simp]:
  "mem_owner (map_member f y) = mem_owner y" "mem_identifier (map_member f y) = mem_identifier y"
  "mem_idl_type (map_member f y) = mem_idl_type y"
  "mem_default_value (map_member f y) = mem_default_value y"
  by (simp_all add: map_member_def)

lemma map_dictionary_fields [simp]:
  "dict_identifier (map_dictionary f x) = dict_identifier x"
  "dict_inherited (map_dictionary f x) = dict_inherited x"
  "dict_own_members (map_dictionary f x) = dict_own_members x"
  by (simp_all add: map_dictionary_def)

lemma position_less: "p \<in> set ps \<Longrightarrow> position p ps < length ps"
  by (induction ps) auto

lemma nth_position: "p \<in> set ps \<Longrightarrow> ps ! position p ps = p"
  by (induction ps) auto

lemma is_Payload_iff: "is_Payload h a \<longleftrightarrow> (\<exists>p. lookup h a = Some (Payload p))"
  by (cases "lookup h a") (auto simp: is_Payload_def split: obj.splits)

lemma is_Payload_less: "is_Payload h a \<Longrightarrow> a < length h"
  unfolding is_Payload_iff by (auto dest: lookup_Some_less)

lemma is_Payload_append: "is_Payload h a \<Longrightarrow> is_Payload (h @ ext) a"
  unfolding is_Payload_iff by (auto intro: lookup_append_old)

lemma lookup_old: "a < length h \<Longrightarrow> lookup (h @ ext) a = lookup h a"
  by (simp add: lookup_def nth_append)

lemma payload_value_old: "a < length h \<Longrightarrow> payload_value (h @ ext) a = payload_value h a"
  by (simp add: payload_value_def lookup_old)

lemma lookup_copy:
  assumes "list_all (is_Payload h) ps" and "p \<in> set ps"
  shows "lookup (h @ map (nth h) ps @ ext) (length h + position p ps) = lookup h p"
proof -
  from assms have "p < length h" by (auto simp: list_all_iff dest: is_Payload_less)
  then have "lookup h p = Some (h ! p)" by (simp add: lookup_def)
  moreover have "lookup (h @ map (nth h) ps @ ext) (length h + position p ps) = Some (h ! p)"
    using position_less[OF assms(2)] nth_position[OF assms(2)]
    by (simp add: lookup_def nth_append)
  ultimately show ?thesis by simp
qed

lemma copy_payload_value:
  assumes "list_all (is_Payload h) ps" and "p \<in> set ps"
  shows "payload_value (h @ map (nth h) ps @ ext) (length h + position p ps) = payload_value h p"
    and "is_Payload (h @ map (nth h) ps @ ext) (length h + position p ps)"
  using lookup_copy[OF assms] assms
  by (auto simp: payload_value_def is_Payload_def list_all_iff)

lemma fresh_payloads_append: "fresh_payloads n h ps \<Longrightarrow> fresh_payloads n (h @ ext) ps"
  by (auto simp: fresh_payloads_def list_all_iff intro: is_Payload_append)

lemma fresh_payloads_mono: "fresh_payloads n h ps \<Longrightarrow> k \<le> n \<Longrightarrow> fresh_payloads k h ps"
  by (auto simp: fresh_payloads_def list_all_iff)

lemma fresh_payloads_copy:
  assumes "list_all (is_Payload h) ps" and "set qs \<subseteq> set ps"
  shows "fresh_payloads (length h) (h @ map (nth h) ps @ ext)
           (map (\<lambda>p. length h + position p ps) qs)"
  using assms copy_payload_value(2)[OF assms(1)]
  by (auto simp: fresh_payloads_def list_all_iff)

lemma map_member_value_append:
  assumes "list_all (is_Payload h) (payloads_member y)"
  shows "map_member (payload_value (h @ ext)) y = map_member (payload_value h) y"
  using assms
  by (intro map_member_cong payload_value_old) (auto simp: list_all_iff dest: is_Payload_less)

lemma map_member_ir_value_append:
  assumes "list_all (is_Payload h) (payloads_member_ir b)"
  shows "map_member_ir (payload_value (h @ ext)) b = map_member_ir (payload_value h) b"
  using assms
  by (intro map_member_ir_cong payload_value_old) (auto simp: list_all_iff dest: is_Payload_less)

lemma map_dictionary_value_append:
  assumes "list_all (is_Payload h) (payloads_dictionary x)"
  shows "map_dictionary (payload_value (h @ ext)) x = map_dictionary (payload_value h) x"
  using assms
  by (intro map_dictionary_cong payload_value_old) (auto simp: list_all_iff dest: is_Payload_less)

lemma fresh_payloads_valid: "fresh_payloads n h ps \<Longrightarrow> list_all (is_Payload h) ps"
  by (auto simp: fresh_payloads_def list_all_iff)

lemma list_all_is_Payload_append:
  "list_all (is_Payload h) ps \<Longrightarrow> list_all (is_Payload (h @ ext)) ps"
  by (auto simp: list_all_iff intro: is_Payload_append)

subsection \<open>The objects that a freeze makes\<close>

lemma make_copy_member:
  assumes "lookup h a = Some (DictionaryMemberIR m)"
    and "list_all (is_Payload h) (payloads_member_ir m)"
  shows "make_copy h a =
           Inr (length h + length (payloads_member_ir m),
                h @ map (nth h) (payloads_member_ir m) @
                  [DictionaryMemberIR
                     (map_member_ir (\<lambda>p. length h + position p (payloads_member_ir m)) m)])"
  using assms by (simp add: make_copy_def alloc_def Let_def)

lemma is_Dictionary_append: "is_Dictionary h a \<Longrightarrow> is_Dictionary (h @ ext) a"
  by (auto simp: is_Dictionary_def lookup_def nth_append split: option.splits obj.splits if_splits)

lemma DictionaryMember_init_Inr:
  assumes "DictionaryMember_init h ir ow = Inr (m, h')"
  shows "\<exists>b. lookup h ir = Some (DictionaryMemberIR b) \<and> is_Dictionary h ow \<and>
             list_all (is_Payload h) (payloads_member_ir b)"
  using assms
  by (auto simp: DictionaryMember_init_def is_DictionaryMember_IR_def make_copy_def Let_def
      split: if_splits option.splits obj.splits)

lemma DictionaryMember_init_ok:
  assumes b: "lookup h ir = Some (DictionaryMemberIR b)" and ow: "is_Dictionary h ow"
    and v: "list_all (is_Payload h) (payloads_member_ir b)"
  shows "\<exists>y ext. DictionaryMember_init h ir ow = Inr (length h + length ext - 1, h @ ext) \<and>
           ext \<noteq> [] \<and>
           lookup (h @ ext) (length h + length ext - 1) = Some (DictionaryMember y) \<and>
           mem_owner y = ow \<and>
           map_member (payload_value (h @ ext)) y =
             DictionaryMember_of (map_member_ir (payload_value h) b) ow \<and>
           fresh_payloads (length h) (h @ ext) (payloads_member y) \<and>
           (\<forall>ob\<in>set ext. (\<exists>p. ob = Payload p) \<or> (\<exists>c. ob = DictionaryMemberIR c) \<or>
                           ob = DictionaryMember y)"
proof -
  let ?ps = "payloads_member_ir b"
  let ?new = "\<lambda>p. length h + position p ?ps"
  let ?c = "map_member_ir ?new b"
  let ?y = "DictionaryMember_of ?c ow"
  let ?ext = "map (nth h) ?ps @ [DictionaryMemberIR ?c, DictionaryMember ?y]"
  have copy: "make_copy h ir = Inr (length h + length ?ps, h @ map (nth h) ?ps @ [DictionaryMemberIR ?c])"
    by (rule make_copy_member[OF b v])
  have "DictionaryMember_init h ir ow = Inr (length h + length ?ps + 1, h @ ?ext)"
    using b ow copy
    by (simp add: DictionaryMember_init_def is_DictionaryMember_IR_def lookup_def nth_append
        alloc_def)
  then have init: "DictionaryMember_init h ir ow = Inr (length h + length ?ext - 1, h @ ?ext)"
    by simp
  have lk: "lookup (h @ ?ext) (length h + length ?ext - 1) = Some (DictionaryMember ?y)"
    by (simp add: lookup_def nth_append)
  have val: "map_member (payload_value (h @ ?ext)) ?y =
             DictionaryMember_of (map_member_ir (payload_value h) b) ow"
    unfolding map_DictionaryMember_of map_member_ir_comp
    using copy_payload_value(1)[OF v, of _ "[DictionaryMemberIR ?c, DictionaryMember ?y]"]
    by (auto intro!: arg_cong2[where f = DictionaryMember_of] map_member_ir_cong)
  have fresh: "fresh_payloads (length h) (h @ ?ext) (payloads_member ?y)"
    unfolding payloads_DictionaryMember_of payloads_map_member_ir
    using fresh_payloads_copy[OF v subset_refl, of "[DictionaryMemberIR ?c, DictionaryMember ?y]"]
    by simp
  have shape: "\<forall>ob\<in>set ?ext. (\<exists>p. ob = Payload p) \<or> (\<exists>c. ob = DictionaryMemberIR c) \<or>
                           ob = DictionaryMember ?y"
  proof
    fix ob assume "ob \<in> set ?ext"
    then consider p where "p \<in> set ?ps" "ob = h ! p" | "ob = DictionaryMemberIR ?c"
      | "ob = DictionaryMember ?y"
      by auto
    then show "(\<exists>p. ob = Payload p) \<or> (\<exists>c. ob = DictionaryMemberIR c) \<or>
                           ob = DictionaryMember ?y"
    proof cases
      case 1
      with v have "is_Payload h p" by (simp add: list_all_iff)
      with 1 show ?thesis by (auto simp: is_Payload_iff lookup_def split: if_splits)
    qed auto
  qed
  have "mem_owner ?y = ow" by (simp add: DictionaryMember_of_def)
  with init lk val fresh shape show ?thesis by blast
qed

lemma DictionaryMember_list_ok:
  assumes "list_all2 (\<lambda>a b. lookup h a = Some (DictionaryMemberIR b) \<and>
              list_all (is_Payload h) (payloads_member_ir b)) as bs"
    and "is_Dictionary h ow"
  shows "\<exists>ms ext. DictionaryMember_list h as ow = Inr (ms, h @ ext) \<and>
           list_all2 (\<lambda>b m. length h \<le> m \<and>
              (\<exists>y. lookup (h @ ext) m = Some (DictionaryMember y) \<and> mem_owner y = ow \<and>
                   map_member (payload_value (h @ ext)) y =
                     DictionaryMember_of (map_member_ir (payload_value h) b) ow \<and>
                   fresh_payloads (length h) (h @ ext) (payloads_member y))) bs ms \<and>
           (\<forall>ob\<in>set ext. (\<exists>p. ob = Payload p) \<or> (\<exists>c. ob = DictionaryMemberIR c) \<or>
                           (\<exists>y. ob = DictionaryMember y \<and> mem_owner y = ow))"
  using assms
proof (induction as arbitrary: h bs)
  case Nil
  then show ?case by (intro exI[of _ "[]"]) simp
next
  case (Cons a as h bs0)
  from Cons.prems(1) obtain b bs where bs0: "bs0 = b # bs"
    and b: "lookup h a = Some (DictionaryMemberIR b)"
    and v: "list_all (is_Payload h) (payloads_member_ir b)"
    and tl: "list_all2 (\<lambda>a b. lookup h a = Some (DictionaryMemberIR b) \<and>
              list_all (is_Payload h) (payloads_member_ir b)) as bs"
    by (cases bs0) auto
  from DictionaryMember_init_ok[OF b Cons.prems(2) v] obtain y1 ext1 where
    init: "DictionaryMember_init h a ow = Inr (length h + length ext1 - 1, h @ ext1)" and
    ne: "ext1 \<noteq> []" and
    lk1: "lookup (h @ ext1) (length h + length ext1 - 1) = Some (DictionaryMember y1)" and
    ow1: "mem_owner y1 = ow" and
    val1: "map_member (payload_value (h @ ext1)) y1 =
             DictionaryMember_of (map_member_ir (payload_value h) b) ow" and
    fr1: "fresh_payloads (length h) (h @ ext1) (payloads_member y1)" and
    sh1: "\<forall>ob\<in>set ext1. (\<exists>p. ob = Payload p) \<or> (\<exists>c. ob = DictionaryMemberIR c) \<or>
                           ob = DictionaryMember y1"
    by blast
  let ?h1 = "h @ ext1"
  let ?m1 = "length h + length ext1 - 1"
  have rest: "list_all2 (\<lambda>a b. lookup ?h1 a = Some (DictionaryMemberIR b) \<and>
              list_all (is_Payload ?h1) (payloads_member_ir b)) as bs"
    using tl
    by (rule list_all2_mono) (auto intro: lookup_append_old list_all_is_Payload_append)
  have valid: "list_all (\<lambda>b. list_all (is_Payload h) (payloads_member_ir b)) bs"
    using tl by (auto simp: list_all2_conv_all_nth list_all_length)
  from Cons.IH[OF rest is_Dictionary_append[OF Cons.prems(2)]] obtain ms ext2 where
    l: "DictionaryMember_list ?h1 as ow = Inr (ms, ?h1 @ ext2)" and
    a2: "list_all2 (\<lambda>b m. length ?h1 \<le> m \<and>
              (\<exists>y. lookup (?h1 @ ext2) m = Some (DictionaryMember y) \<and> mem_owner y = ow \<and>
                   map_member (payload_value (?h1 @ ext2)) y =
                     DictionaryMember_of (map_member_ir (payload_value ?h1) b) ow \<and>
                   fresh_payloads (length ?h1) (?h1 @ ext2) (payloads_member y))) bs ms" and
    sh2: "\<forall>ob\<in>set ext2. (\<exists>p. ob = Payload p) \<or> (\<exists>c. ob = DictionaryMemberIR c) \<or>
                           (\<exists>y. ob = DictionaryMember y \<and> mem_owner y = ow)"
    by blast
  let ?ext = "ext1 @ ext2"
  have res: "DictionaryMember_list h (a # as) ow = Inr (?m1 # ms, h @ ?ext)"
    using init l by simp
  have first: "length h \<le> ?m1 \<and>
      (\<exists>y. lookup (h @ ?ext) ?m1 = Some (DictionaryMember y) \<and> mem_owner y = ow \<and>
           map_member (payload_value (h @ ?ext)) y =
             DictionaryMember_of (map_member_ir (payload_value h) b) ow \<and>
           fresh_payloads (length h) (h @ ?ext) (payloads_member y))"
  proof -
    have "length h \<le> ?m1" using ne by (cases ext1) simp_all
    moreover have "lookup (h @ ?ext) ?m1 = Some (DictionaryMember y1)"
      using lookup_append_old[OF lk1, of ext2] by simp
    moreover have "map_member (payload_value (h @ ?ext)) y1 =
             DictionaryMember_of (map_member_ir (payload_value h) b) ow"
      using map_member_value_append[OF fresh_payloads_valid[OF fr1], of ext2] val1 by simp
    moreover have "fresh_payloads (length h) (h @ ?ext) (payloads_member y1)"
      using fresh_payloads_append[OF fr1, of ext2] by simp
    ultimately show ?thesis using ow1 by blast
  qed
  have others: "list_all2 (\<lambda>b m. length h \<le> m \<and>
              (\<exists>y. lookup (h @ ?ext) m = Some (DictionaryMember y) \<and> mem_owner y = ow \<and>
                   map_member (payload_value (h @ ?ext)) y =
                     DictionaryMember_of (map_member_ir (payload_value h) b) ow \<and>
                   fresh_payloads (length h) (h @ ?ext) (payloads_member y))) bs ms"
    unfolding list_all2_conv_all_nth
  proof (intro conjI allI impI)
    show "length bs = length ms" using a2 by (simp add: list_all2_conv_all_nth)
  next
    fix i assume i: "i < length bs"
    from a2 i obtain y where
      m: "length ?h1 \<le> ms ! i" and
      lk: "lookup (?h1 @ ext2) (ms ! i) = Some (DictionaryMember y)" and
      o: "mem_owner y = ow" and
      val: "map_member (payload_value (?h1 @ ext2)) y =
                     DictionaryMember_of (map_member_ir (payload_value ?h1) (bs ! i)) ow" and
      fr: "fresh_payloads (length ?h1) (?h1 @ ext2) (payloads_member y)"
      by (auto simp: list_all2_conv_all_nth)
    from valid i have "list_all (is_Payload h) (payloads_member_ir (bs ! i))"
      by (simp add: list_all_length)
    from map_member_ir_value_append[OF this, of ext1] val
    have "map_member (payload_value (h @ ?ext)) y =
                     DictionaryMember_of (map_member_ir (payload_value h) (bs ! i)) ow"
      by simp
    moreover have "fresh_payloads (length h) (h @ ?ext) (payloads_member y)"
      using fresh_payloads_mono[OF fr, of "length h"] by simp
    moreover have "length h \<le> ms ! i" using m by simp
    moreover have "lookup (h @ ?ext) (ms ! i) = Some (DictionaryMember y)" using lk by simp
    ultimately show "length h \<le> ms ! i"
      and "\<exists>y. lookup (h @ ?ext) (ms ! i) = Some (DictionaryMember y) \<and> mem_owner y = ow \<and>
                   map_member (payload_value (h @ ?ext)) y =
                     DictionaryMember_of (map_member_ir (payload_value h) (bs ! i)) ow \<and>
                   fresh_payloads (length h) (h @ ?ext) (payloads_member y)"
      using o by blast+
  qed
  have shape: "\<forall>ob\<in>set ?ext. (\<exists>p. ob = Payload p) \<or> (\<exists>c. ob = DictionaryMemberIR c) \<or>
                           (\<exists>y. ob = DictionaryMember y \<and> mem_owner y = ow)"
    using sh1 sh2 ow1 by auto
  from res first others shape show ?case
    unfolding bs0 by (intro exI[of _ "?m1 # ms"] exI[of _ ?ext]) simp
qed

lemma lookup_append3:
  assumes "lookup (h @ A @ [ob] @ B) a = Some ob'"
  shows "a < length h \<or> ob' \<in> set A \<or> (a = length h + length A \<and> ob' = ob) \<or> ob' \<in> set B"
proof (cases "a < length h")
  case True
  then show ?thesis by simp
next
  case False
  then have ge: "length h \<le> a" by simp
  from assms have lt: "a < length h + length A + 1 + length B"
    by (simp add: lookup_def split: if_splits)
  from assms ge have nth: "(A @ [ob] @ B) ! (a - length h) = ob'"
    by (simp add: lookup_def nth_append split: if_splits)
  consider "a - length h < length A" | "a - length h = length A" | "a - length h > length A"
    by linarith
  then show ?thesis
  proof cases
    case 1
    with nth have "ob' \<in> set A" by (auto simp: nth_append)
    then show ?thesis by simp
  next
    case 2
    with nth ge show ?thesis by (auto simp: nth_append)
  next
    case 3
    with nth lt ge have "B ! (a - length h - length A - 1) = ob'"
      and "a - length h - length A - 1 < length B"
      by (auto simp: nth_append nth_Cons')
    then have "ob' \<in> set B" by (metis nth_mem)
    then show ?thesis by simp
  qed
qed

lemma make_copy_Dictionary_IR:
  assumes "lookup h ir = Some (DictionaryIR b)"
    and "get_member_irs h (ir_own_members b) = Some bs"
    and "list_all (is_Payload h) (payloads_ir b @ concat (map payloads_member_ir bs))"
  shows "make_copy h ir =
     (let ps = payloads_ir b @ concat (map payloads_member_ir bs);
          new = (\<lambda>p. length h + position p ps);
          n1 = length h + length ps
      in Inr (n1 + length bs,
              h @ map (nth h) ps @ map (\<lambda>m. DictionaryMemberIR (map_member_ir new m)) bs @
                [DictionaryIR ((map_ir new b)\<lparr>ir_own_members := [n1 ..< n1 + length bs]\<rparr>)]))"
  using assms by (simp add: make_copy_def alloc_def Let_def)

lemma lookup_replace: "a \<noteq> length A \<Longrightarrow> lookup (A @ ob # B) a = lookup (A @ ob' # B) a"
  by (simp add: lookup_def nth_append nth_Cons')

lemma payload_value_replace:
  "payload_value (A @ Dictionary x # B) = payload_value (A @ Dictionary x' # B)"
proof
  fix a
  show "payload_value (A @ Dictionary x # B) a = payload_value (A @ Dictionary x' # B) a"
  proof (cases "a = length A")
    case True
    then show ?thesis by (simp add: payload_value_def lookup_def)
  next
    case False
    from lookup_replace[OF this, of "Dictionary x" B "Dictionary x'"]
    show ?thesis by (simp add: payload_value_def)
  qed
qed

lemma is_Payload_replace:
  "is_Payload (A @ Dictionary x # B) = is_Payload (A @ Dictionary x' # B)"
proof
  fix a
  show "is_Payload (A @ Dictionary x # B) a = is_Payload (A @ Dictionary x' # B) a"
  proof (cases "a = length A")
    case True
    then show ?thesis by (simp add: is_Payload_def lookup_def)
  next
    case False
    from lookup_replace[OF this, of "Dictionary x" B "Dictionary x'"]
    show ?thesis by (simp add: is_Payload_def)
  qed
qed

lemma fresh_payloads_replace:
  "fresh_payloads n (A @ Dictionary x # B) = fresh_payloads n (A @ Dictionary x' # B)"
  unfolding fresh_payloads_def is_Payload_replace[of A x B x'] ..

lemma Dictionary_init_ok:
  assumes ir: "lookup h ir = Some (DictionaryIR b)" and np: "\<not> ir_is_partial b"
    and bs: "get_member_irs h (ir_own_members b) = Some bs"
    and v: "list_all (is_Payload h) (payloads_ir b @ concat (map payloads_member_ir bs))"
  shows "\<exists>d ms ext x. Dictionary_init h ir = Inr (d, h @ ext) \<and> length h < d \<and>
           lookup (h @ ext) d = Some (Dictionary x) \<and>
           map_dictionary (payload_value (h @ ext)) x =
             Dictionary_of (map_ir (payload_value h) b) ms \<and>
           fresh_payloads (length h) (h @ ext) (payloads_dictionary x) \<and>
           list_all2 (\<lambda>b m. length h \<le> m \<and>
              (\<exists>y. lookup (h @ ext) m = Some (DictionaryMember y) \<and> mem_owner y = d \<and>
                   map_member (payload_value (h @ ext)) y =
                     DictionaryMember_of (map_member_ir (payload_value h) b) d \<and>
                   fresh_payloads (length h) (h @ ext) (payloads_member y))) bs ms \<and>
           (\<forall>a x. lookup (h @ ext) a = Some (Dictionary x) \<longrightarrow> a < length h \<or> a = d) \<and>
           (\<forall>a y. lookup (h @ ext) a = Some (DictionaryMember y) \<longrightarrow>
              a < length h \<or> mem_owner y = d) \<and>
           (\<forall>a r. lookup (h @ ext) a = Some (RefById r) \<longrightarrow> a < length h)"
proof -
  let ?n = "length h" and ?k = "length bs"
  let ?ps = "payloads_ir b @ concat (map payloads_member_ir bs)"
  let ?new = "\<lambda>p. ?n + position p ?ps"
  let ?n1 = "?n + length ?ps"
  let ?cs = "map (\<lambda>m. DictionaryMemberIR (map_member_ir ?new m)) bs"
  let ?c = "(map_ir ?new b)\<lparr>ir_own_members := [?n1 ..< ?n1 + ?k]\<rparr>"
  let ?A = "map (nth h) ?ps @ ?cs @ [DictionaryIR ?c]"
  let ?h1 = "h @ ?A"
  let ?self = "Suc (?n1 + ?k)"
  let ?h2 = "?h1 @ [Dictionary (Dictionary_of ?c [])]"
  have copy: "make_copy h ir = Inr (?n1 + ?k, ?h1)"
    using make_copy_Dictionary_IR[OF ir bs v] by (simp add: Let_def)
  have c: "lookup ?h1 (?n1 + ?k) = Some (DictionaryIR ?c)"
    by (simp add: lookup_def nth_append)
  have al: "alloc ?h1 (Dictionary (Dictionary_of ?c [])) = (?self, ?h2)"
    by (simp add: alloc_def)
  have own: "ir_own_members ?c = [?n1 ..< ?n1 + ?k]" by simp
  have copied: "\<And>p ext. p \<in> set ?ps \<Longrightarrow>
      payload_value (h @ map (nth h) ?ps @ ext) (?new p) = payload_value h p \<and>
      is_Payload (h @ map (nth h) ?ps @ ext) (?new p)"
    using copy_payload_value[OF v] by blast
  have h2_form: "?h2 = h @ map (nth h) ?ps @ (?cs @ [DictionaryIR ?c, Dictionary (Dictionary_of ?c [])])"
    by simp
  have g2: "list_all2 (\<lambda>a b. lookup ?h2 a = Some (DictionaryMemberIR b) \<and>
              list_all (is_Payload ?h2) (payloads_member_ir b))
              [?n1 ..< ?n1 + ?k] (map (map_member_ir ?new) bs)"
    unfolding list_all2_conv_all_nth
  proof (intro conjI allI impI)
    show "length [?n1 ..< ?n1 + ?k] = length (map (map_member_ir ?new) bs)" by simp
  next
    fix i assume "i < length [?n1 ..< ?n1 + ?k]"
    then have i: "i < ?k" by simp
    then show "lookup ?h2 ([?n1 ..< ?n1 + ?k] ! i) =
                 Some (DictionaryMemberIR (map (map_member_ir ?new) bs ! i))"
      by (simp add: lookup_def nth_append)
    have sub: "set (payloads_member_ir (bs ! i)) \<subseteq> set ?ps" using i by auto
    show "list_all (is_Payload ?h2) (payloads_member_ir (map (map_member_ir ?new) bs ! i))"
      unfolding h2_form using i sub copied
      by (auto simp: payloads_map_member_ir list_all_iff simp del: append_assoc)
  qed
  have d2: "is_Dictionary ?h2 ?self"
    by (simp add: is_Dictionary_def lookup_def nth_append)
  from DictionaryMember_list_ok[OF g2 d2] obtain ms ext where
    l: "DictionaryMember_list ?h2 [?n1 ..< ?n1 + ?k] ?self = Inr (ms, ?h2 @ ext)" and
    a2: "list_all2 (\<lambda>b m. length ?h2 \<le> m \<and>
              (\<exists>y. lookup (?h2 @ ext) m = Some (DictionaryMember y) \<and> mem_owner y = ?self \<and>
                   map_member (payload_value (?h2 @ ext)) y =
                     DictionaryMember_of (map_member_ir (payload_value ?h2) b) ?self \<and>
                   fresh_payloads (length ?h2) (?h2 @ ext) (payloads_member y)))
            (map (map_member_ir ?new) bs) ms" and
    e: "\<forall>ob\<in>set ext. (\<exists>p. ob = Payload p) \<or> (\<exists>c. ob = DictionaryMemberIR c) \<or>
                           (\<exists>y. ob = DictionaryMember y \<and> mem_owner y = ?self)"
    by blast
  let ?x = "Dictionary_of ?c ms"
  let ?ext = "?A @ [Dictionary ?x] @ ext"
  let ?old = "?h1 @ Dictionary (Dictionary_of ?c []) # ext"
  have final: "h @ ?ext = ?h1 @ Dictionary ?x # ext" by simp
  have old: "?h2 @ ext = ?old" by simp
  have upd: "(?h2 @ ext)[?self := Dictionary ?x] = h @ ?ext"
    by (simp add: list_update_append)
  have res: "Dictionary_init h ir = Inr (?self, h @ ?ext)"
    unfolding Dictionary_init_def using ir np copy c al own l upd
    by (simp del: append_assoc)
  have pv: "payload_value (h @ ?ext) = payload_value (?h2 @ ext)"
    unfolding final old by (rule payload_value_replace)
  have fp: "\<And>n. fresh_payloads n (h @ ?ext) = fresh_payloads n (?h2 @ ext)"
    unfolding final old by (rule fresh_payloads_replace)
  have final_form: "h @ ?ext = h @ map (nth h) ?ps @ (?cs @ [DictionaryIR ?c, Dictionary ?x] @ ext)"
    by simp
  have self: "lookup (h @ ?ext) ?self = Some (Dictionary ?x)"
    by (simp add: lookup_def nth_append)
  have val: "map_dictionary (payload_value (h @ ?ext)) ?x =
             Dictionary_of (map_ir (payload_value h) b) ms"
  proof -
    have "map_ir (\<lambda>p. payload_value (h @ ?ext) (?new p)) b = map_ir (payload_value h) b"
    proof (rule map_ir_cong)
      fix p assume "p \<in> set (payloads_ir b)"
      then have "p \<in> set ?ps" by simp
      from copied[OF this] show "payload_value (h @ ?ext) (?new p) = payload_value h p"
        unfolding final_form by blast
    qed
    then show ?thesis
      by (simp add: map_Dictionary_of map_ir_own_members_upd map_ir_comp del: append_assoc)
  qed
  have fresh: "fresh_payloads ?n (h @ ?ext) (payloads_dictionary ?x)"
  proof -
    have "fresh_payloads ?n (h @ map (nth h) ?ps @ (?cs @ [DictionaryIR ?c, Dictionary ?x] @ ext))
            (map ?new (payloads_ir b))"
      by (rule fresh_payloads_copy[OF v]) simp
    then show ?thesis
      unfolding final_form by (simp add: payloads_Dictionary_of payloads_map_ir del: append_assoc)
  qed
  have mem: "list_all2 (\<lambda>b m. ?n \<le> m \<and>
              (\<exists>y. lookup (h @ ?ext) m = Some (DictionaryMember y) \<and> mem_owner y = ?self \<and>
                   map_member (payload_value (h @ ?ext)) y =
                     DictionaryMember_of (map_member_ir (payload_value h) b) ?self \<and>
                   fresh_payloads ?n (h @ ?ext) (payloads_member y))) bs ms"
    unfolding list_all2_conv_all_nth
  proof (intro conjI allI impI)
    show "length bs = length ms" using a2 by (simp add: list_all2_conv_all_nth)
  next
    fix i assume i: "i < length bs"
    from a2 i obtain y where
      m: "length ?h2 \<le> ms ! i" and
      lk: "lookup (?h2 @ ext) (ms ! i) = Some (DictionaryMember y)" and
      o: "mem_owner y = ?self" and
      valy: "map_member (payload_value (?h2 @ ext)) y =
               DictionaryMember_of (map_member_ir (payload_value ?h2) (map_member_ir ?new (bs ! i))) ?self" and
      fr: "fresh_payloads (length ?h2) (?h2 @ ext) (payloads_member y)"
      by (auto simp: list_all2_conv_all_nth)
    have ne: "ms ! i \<noteq> length ?h1" using m by simp
    have "lookup (?h1 @ Dictionary ?x # ext) (ms ! i) =
          lookup (?h1 @ Dictionary (Dictionary_of ?c []) # ext) (ms ! i)"
      by (rule lookup_replace[OF ne])
    with lk have lk': "lookup (h @ ?ext) (ms ! i) = Some (DictionaryMember y)"
      by simp
    have "map_member_ir (\<lambda>p. payload_value ?h2 (?new p)) (bs ! i) =
          map_member_ir (payload_value h) (bs ! i)"
    proof (rule map_member_ir_cong)
      fix p assume "p \<in> set (payloads_member_ir (bs ! i))"
      then have "p \<in> set ?ps" using i by auto
      from copied[OF this] show "payload_value ?h2 (?new p) = payload_value h p"
        unfolding h2_form by blast
    qed
    with valy have valy': "map_member (payload_value (h @ ?ext)) y =
               DictionaryMember_of (map_member_ir (payload_value h) (bs ! i)) ?self"
      unfolding pv by (simp add: map_member_ir_comp del: append_assoc)
    have fr': "fresh_payloads ?n (h @ ?ext) (payloads_member y)"
      unfolding fp using fresh_payloads_mono[OF fr, of ?n] by simp
    have "?n \<le> ms ! i" using m by simp
    with lk' o valy' fr' show "?n \<le> ms ! i"
      and "\<exists>y. lookup (h @ ?ext) (ms ! i) = Some (DictionaryMember y) \<and> mem_owner y = ?self \<and>
                   map_member (payload_value (h @ ?ext)) y =
                     DictionaryMember_of (map_member_ir (payload_value h) (bs ! i)) ?self \<and>
                   fresh_payloads ?n (h @ ?ext) (payloads_member y)"
      by blast+
  qed
  have shapeA: "\<forall>ob\<in>set ?A. (\<exists>p. ob = Payload p) \<or> (\<exists>c. ob = DictionaryMemberIR c) \<or>
                  (\<exists>c. ob = DictionaryIR c)"
  proof
    fix ob assume "ob \<in> set ?A"
    then consider p where "p \<in> set ?ps" "ob = h ! p" | "ob \<in> set ?cs" | "ob = DictionaryIR ?c"
      by auto
    then show "(\<exists>p. ob = Payload p) \<or> (\<exists>c. ob = DictionaryMemberIR c) \<or> (\<exists>c. ob = DictionaryIR c)"
    proof cases
      case 1
      with v have "is_Payload h p" by (simp add: list_all_iff)
      with 1 show ?thesis by (auto simp: is_Payload_iff lookup_def split: if_splits)
    qed auto
  qed
  have where3: "\<And>a ob'. lookup (h @ ?ext) a = Some ob' \<Longrightarrow>
      a < ?n \<or> ob' \<in> set ?A \<or> (a = ?self \<and> ob' = Dictionary ?x) \<or> ob' \<in> set ext"
  proof -
    fix a ob' assume l3: "lookup (h @ ?ext) a = Some ob'"
    have lenA: "length h + length ?A = ?self" by simp
    from lookup_append3[OF l3] show
      "a < ?n \<or> ob' \<in> set ?A \<or> (a = ?self \<and> ob' = Dictionary ?x) \<or> ob' \<in> set ext"
      unfolding lenA .
  qed
  have dicts: "\<forall>a x. lookup (h @ ?ext) a = Some (Dictionary x) \<longrightarrow> a < ?n \<or> a = ?self"
  proof (intro allI impI)
    fix a x assume "lookup (h @ ?ext) a = Some (Dictionary x)"
    from where3[OF this] shapeA e show "a < ?n \<or> a = ?self" by blast
  qed
  have mems: "\<forall>a y. lookup (h @ ?ext) a = Some (DictionaryMember y) \<longrightarrow>
              a < ?n \<or> mem_owner y = ?self"
  proof (intro allI impI)
    fix a y assume "lookup (h @ ?ext) a = Some (DictionaryMember y)"
    from where3[OF this] shapeA e show "a < ?n \<or> mem_owner y = ?self" by blast
  qed
  have refs: "\<forall>a r. lookup (h @ ?ext) a = Some (RefById r) \<longrightarrow> a < ?n"
  proof (intro allI impI)
    fix a r assume "lookup (h @ ?ext) a = Some (RefById r)"
    from where3[OF this] shapeA e show "a < ?n" by blast
  qed
  have "?n < ?self" by simp
  with res self val fresh mem dicts mems refs show ?thesis by blast
qed

lemma Dictionary_init_Inr:
  assumes "Dictionary_init h ir = Inr (d, h')"
  shows "\<exists>b bs. lookup h ir = Some (DictionaryIR b) \<and> \<not> ir_is_partial b \<and>
           get_member_irs h (ir_own_members b) = Some bs \<and>
           list_all (is_Payload h) (payloads_ir b @ concat (map payloads_member_ir bs))"
  using assms
  by (auto simp: Dictionary_init_def make_copy_def Let_def
      split: option.splits obj.splits if_splits)

lemma Dictionary_init_Inl:
  assumes "Dictionary_init h ir = Inl e"
  shows "e = AssertionError \<and>
         (\<forall>b bs. lookup h ir = Some (DictionaryIR b) \<longrightarrow>
                 get_member_irs h (ir_own_members b) = Some bs \<longrightarrow>
                 list_all (is_Payload h) (payloads_ir b @ concat (map payloads_member_ir bs)) \<longrightarrow>
                 ir_is_partial b)"
proof -
  have "\<not> (\<exists>b bs. lookup h ir = Some (DictionaryIR b) \<and> \<not> ir_is_partial b \<and>
           get_member_irs h (ir_own_members b) = Some bs \<and>
           list_all (is_Payload h) (payloads_ir b @ concat (map payloads_member_ir bs)))"
    using Dictionary_init_ok[of h ir] assms by fastforce
  then show ?thesis using assms
    by (auto simp: Dictionary_init_def make_copy_def Let_def
        split: option.splits obj.splits if_splits)
qed

subsection \<open>Frozen objects stay as they are\<close>

lemma owner_eq_Inr:
  "owner h m = Inr d \<longleftrightarrow> (\<exists>y. lookup h m = Some (DictionaryMember y) \<and> mem_owner y = d)"
  by (auto simp: owner_def split: option.splits obj.splits)

lemma frozen_ok_iff:
  "frozen_ok h \<longleftrightarrow>
     (\<forall>d x m. lookup h d = Some (Dictionary x) \<longrightarrow> m \<in> set (dict_own_members x) \<longrightarrow>
        owner h m = Inr d)"
proof
  assume ok: "frozen_ok h"
  show "\<forall>d x m. lookup h d = Some (Dictionary x) \<longrightarrow> m \<in> set (dict_own_members x) \<longrightarrow>
        owner h m = Inr d"
  proof (intro allI impI)
    fix d x m assume d: "lookup h d = Some (Dictionary x)" and m: "m \<in> set (dict_own_members x)"
    from d have "d < length h" by (rule lookup_Some_less)
    with ok have "case lookup h d of
              Some (Dictionary x) \<Rightarrow> list_all (\<lambda>m. owner h m = Inr d) (dict_own_members x)
            | _ \<Rightarrow> True"
      by (simp add: frozen_ok_def list_all_iff)
    with d have "list_all (\<lambda>m. owner h m = Inr d) (dict_own_members x)" by simp
    with m show "owner h m = Inr d" by (simp add: list_all_iff)
  qed
next
  assume "\<forall>d x m. lookup h d = Some (Dictionary x) \<longrightarrow> m \<in> set (dict_own_members x) \<longrightarrow>
        owner h m = Inr d"
  then show "frozen_ok h"
    by (auto simp: frozen_ok_def list_all_iff split: option.splits obj.splits)
qed

lemma DictionaryMember_init_shape:
  assumes "DictionaryMember_init h ir ow = Inr (m, h')"
  shows "\<exists>ext. h' = h @ ext \<and> (\<forall>ob\<in>set ext. \<forall>x. ob \<noteq> Dictionary x)"
proof -
  from DictionaryMember_init_Inr[OF assms] obtain b where
    "lookup h ir = Some (DictionaryMemberIR b)" "is_Dictionary h ow"
    "list_all (is_Payload h) (payloads_member_ir b)" by blast
  from DictionaryMember_init_ok[OF this] assms show ?thesis by auto
qed

lemma step_cases_shape:
  assumes "step h h'"
  shows "(\<exists>ext. h' = h @ ext) \<or>
         (\<exists>a b b'. lookup h a = Some (DictionaryIR b) \<and> h' = h[a := DictionaryIR b']) \<or>
         (\<exists>a b b'. lookup h a = Some (DictionaryMemberIR b) \<and> h' = h[a := DictionaryMemberIR b']) \<or>
         (\<exists>a b b'. lookup h a = Some (RefById b) \<and> h' = h[a := RefById b']) \<or>
         (\<exists>a b b'. lookup h a = Some (Payload b) \<and> h' = h[a := Payload b'])"
  using assms
proof cases
  case (new_member_builder n t v e c i a)
  then show ?thesis
    by (auto simp: DictionaryMember_IR_init_def alloc_def split: option.splits if_splits)
next
  case (new_dictionary_builder n p r ms e c i a)
  then show ?thesis
    by (auto simp: Dictionary_IR_init_def alloc_def split: option.splits if_splits)
next
  case mutate_builder
  then show ?thesis by (auto elim!: builder_mutation.cases)
next
  case (new_reference r)
  then show ?thesis by auto
next
  case (resolve_reference a r r')
  then show ?thesis by auto
next
  case (freeze_member ir ow m)
  from DictionaryMember_init_shape[OF this] show ?thesis by blast
next
  case (freeze_dictionary ir d)
  from Dictionary_init_Inr[OF freeze_dictionary] obtain b bs where
    "lookup h ir = Some (DictionaryIR b)" "\<not> ir_is_partial b"
    "get_member_irs h (ir_own_members b) = Some bs"
    "list_all (is_Payload h) (payloads_ir b @ concat (map payloads_member_ir bs))" by blast
  from Dictionary_init_ok[OF this] freeze_dictionary show ?thesis by auto
next
  case (new_payload p)
  then show ?thesis by auto
next
  case (change_payload a p p')
  then show ?thesis by auto
qed

lemma step_frozen:
  assumes "step h h'" and "lookup h a = Some ob" and "is_frozen ob"
  shows "lookup h' a = Some ob"
proof -
  from step_cases_shape[OF assms(1)]
  consider ext where "h' = h @ ext"
    | a' ob' where "h' = h[a' := ob']" "\<exists>ob. lookup h a' = Some ob \<and> \<not> is_frozen ob"
    by (auto simp: is_frozen_def)
  then show ?thesis
  proof cases
    case 1
    then show ?thesis using assms(2) by (simp add: lookup_append_old)
  next
    case 2
    then have "a' \<noteq> a" using assms(2,3) by auto
    then show ?thesis using 2 assms(2) by (simp add: lookup_update_other)
  qed
qed

lemma steps_frozen:
  assumes "step\<^sup>*\<^sup>* h h'" and "lookup h a = Some ob" and "is_frozen ob"
  shows "lookup h' a = Some ob"
  using assms by (induction rule: rtranclp_induct) (auto intro: step_frozen)

lemma frozen_ok_extend:
  assumes ok: "frozen_ok h"
    and pres: "\<And>a ob. lookup h a = Some ob \<Longrightarrow> is_frozen ob \<Longrightarrow> lookup h' a = Some ob"
    and new: "\<And>d x. lookup h' d = Some (Dictionary x) \<Longrightarrow>
                lookup h d = Some (Dictionary x) \<or>
                (\<forall>m\<in>set (dict_own_members x). owner h' m = Inr d)"
  shows "frozen_ok h'"
  unfolding frozen_ok_iff
proof (intro allI impI)
  fix d x m assume d: "lookup h' d = Some (Dictionary x)" and m: "m \<in> set (dict_own_members x)"
  from new[OF d] show "owner h' m = Inr d"
  proof
    assume old: "lookup h d = Some (Dictionary x)"
    with ok m have "owner h m = Inr d" unfolding frozen_ok_iff by blast
    then obtain y where y: "lookup h m = Some (DictionaryMember y)" "mem_owner y = d"
      unfolding owner_eq_Inr by blast
    have "lookup h' m = Some (DictionaryMember y)"
      by (rule pres[OF y(1)]) (simp add: is_frozen_def)
    with y(2) show ?thesis unfolding owner_eq_Inr by blast
  next
    assume "\<forall>m\<in>set (dict_own_members x). owner h' m = Inr d"
    with m show ?thesis by blast
  qed
qed

lemma lookup_append_cases:
  "lookup (h @ ext) a = Some ob \<Longrightarrow> lookup h a = Some ob \<or> ob \<in> set ext"
  by (auto simp: lookup_def nth_append split: if_splits)

lemma frozen_ok_append:
  assumes ok: "frozen_ok h" and ext: "\<forall>ob\<in>set ext. \<forall>x. ob \<noteq> Dictionary x"
  shows "frozen_ok (h @ ext)"
proof (rule frozen_ok_extend[OF ok])
  fix a ob assume "lookup h a = Some ob"
  then show "lookup (h @ ext) a = Some ob" by (rule lookup_append_old)
next
  fix a x assume "lookup (h @ ext) a = Some (Dictionary x)"
  from lookup_append_cases[OF this] ext have "lookup h a = Some (Dictionary x)" by blast
  then show "lookup h a = Some (Dictionary x) \<or>
                (\<forall>m\<in>set (dict_own_members x). owner (h @ ext) m = Inr a)" ..
qed

lemma frozen_ok_update:
  assumes ok: "frozen_ok h" and old: "lookup h a = Some ob" "\<not> is_frozen ob"
    and new: "\<not> is_frozen ob'"
  shows "frozen_ok (h[a := ob'])"
proof (rule frozen_ok_extend[OF ok])
  fix a' ob'' assume l: "lookup h a' = Some ob''" and f: "is_frozen ob''"
  with old have "a' \<noteq> a" by auto
  then show "lookup (h[a := ob']) a' = Some ob''" using l by (simp add: lookup_update_other)
next
  fix a' x assume l: "lookup (h[a := ob']) a' = Some (Dictionary x)"
  have "a' \<noteq> a"
  proof
    assume "a' = a"
    with l old(1) have "ob' = Dictionary x"
      by (simp add: lookup_def split: if_splits)
    with new show False by (simp add: is_frozen_def)
  qed
  with l have "lookup h a' = Some (Dictionary x)" by (simp add: lookup_update_other)
  then show "lookup h a' = Some (Dictionary x) \<or>
                (\<forall>m\<in>set (dict_own_members x). owner (h[a := ob']) m = Inr a')" ..
qed

lemma Dictionary_init_result:
  assumes "Dictionary_init h ir = Inr (d, h')"
  shows "\<exists>b bs ms ext x.
    lookup h ir = Some (DictionaryIR b) \<and> \<not> ir_is_partial b \<and>
    get_member_irs h (ir_own_members b) = Some bs \<and>
    list_all (is_Payload h) (payloads_ir b @ concat (map payloads_member_ir bs)) \<and>
    h' = h @ ext \<and> length h < d \<and>
    lookup h' d = Some (Dictionary x) \<and>
    map_dictionary (payload_value h') x = Dictionary_of (map_ir (payload_value h) b) ms \<and>
    fresh_payloads (length h) h' (payloads_dictionary x) \<and>
    list_all2 (\<lambda>b m. length h \<le> m \<and>
       (\<exists>y. lookup h' m = Some (DictionaryMember y) \<and> mem_owner y = d \<and>
            map_member (payload_value h') y =
              DictionaryMember_of (map_member_ir (payload_value h) b) d \<and>
            fresh_payloads (length h) h' (payloads_member y))) bs ms \<and>
    (\<forall>a x. lookup h' a = Some (Dictionary x) \<longrightarrow> a < length h \<or> a = d) \<and>
    (\<forall>a y. lookup h' a = Some (DictionaryMember y) \<longrightarrow> a < length h \<or> mem_owner y = d) \<and>
    (\<forall>a r. lookup h' a = Some (RefById r) \<longrightarrow> a < length h)"
proof -
  from Dictionary_init_Inr[OF assms] obtain b bs where
    b: "lookup h ir = Some (DictionaryIR b)" "\<not> ir_is_partial b"
    "get_member_irs h (ir_own_members b) = Some bs"
    "list_all (is_Payload h) (payloads_ir b @ concat (map payloads_member_ir bs))" by blast
  from Dictionary_init_ok[OF b] obtain d' ms ext x where
    r: "Dictionary_init h ir = Inr (d', h @ ext)" "length h < d'"
       "lookup (h @ ext) d' = Some (Dictionary x)"
       "map_dictionary (payload_value (h @ ext)) x = Dictionary_of (map_ir (payload_value h) b) ms"
       "fresh_payloads (length h) (h @ ext) (payloads_dictionary x)"
       "list_all2 (\<lambda>b m. length h \<le> m \<and>
          (\<exists>y. lookup (h @ ext) m = Some (DictionaryMember y) \<and> mem_owner y = d' \<and>
            map_member (payload_value (h @ ext)) y =
              DictionaryMember_of (map_member_ir (payload_value h) b) d' \<and>
            fresh_payloads (length h) (h @ ext) (payloads_member y))) bs ms"
       "\<forall>a x. lookup (h @ ext) a = Some (Dictionary x) \<longrightarrow> a < length h \<or> a = d'"
       "\<forall>a y. lookup (h @ ext) a = Some (DictionaryMember y) \<longrightarrow> a < length h \<or> mem_owner y = d'"
       "\<forall>a r. lookup (h @ ext) a = Some (RefById r) \<longrightarrow> a < length h"
    by blast
  from r(1) assms have eq: "d' = d" "h' = h @ ext" by simp_all
  from b r(2-) show ?thesis unfolding eq by blast
qed

lemma own_members_of:
  assumes "lookup h d = Some (Dictionary x)"
    and "map_dictionary f x = Dictionary_of c ms"
  shows "own_members h d = Inr ms" and "dict_own_members x = ms"
proof -
  from assms(2) have "dict_own_members (map_dictionary f x) = ms" by (simp add: Dictionary_of_def)
  then show "dict_own_members x = ms" by simp
  then show "own_members h d = Inr ms" using assms(1) by (simp add: own_members_def)
qed

lemma Dictionary_init_frozen_ok:
  assumes ok: "frozen_ok h" and init: "Dictionary_init h ir = Inr (d, h')"
  shows "frozen_ok h'"
proof -
  from Dictionary_init_result[OF init] obtain b ms bs ext x where
    h': "h' = h @ ext" and
    self: "lookup h' d = Some (Dictionary x)" and
    val: "map_dictionary (payload_value h') x = Dictionary_of (map_ir (payload_value h) b) ms" and
    mem: "list_all2 (\<lambda>b m. length h \<le> m \<and>
       (\<exists>y. lookup h' m = Some (DictionaryMember y) \<and> mem_owner y = d \<and>
            map_member (payload_value h') y =
              DictionaryMember_of (map_member_ir (payload_value h) b) d \<and>
            fresh_payloads (length h) h' (payloads_member y))) bs ms" and
    dicts: "\<forall>a x. lookup h' a = Some (Dictionary x) \<longrightarrow> a < length h \<or> a = d"
    by blast
  show ?thesis
  proof (rule frozen_ok_extend[OF ok])
    fix a ob assume "lookup h a = Some ob"
    then show "lookup h' a = Some ob" unfolding h' by (rule lookup_append_old)
  next
    fix a x' assume a: "lookup h' a = Some (Dictionary x')"
    from dicts a consider "a < length h" | "a = d" by blast
    then show "lookup h a = Some (Dictionary x') \<or>
                (\<forall>m\<in>set (dict_own_members x'). owner h' m = Inr a)"
    proof cases
      case 1
      then have "lookup h a = Some (Dictionary x')"
        using a unfolding h' by (simp add: lookup_def nth_append)
      then show ?thesis ..
    next
      case 2
      with a self have x: "x' = x" by simp
      have "\<forall>m\<in>set ms. owner h' m = Inr d"
      proof
        fix m assume "m \<in> set ms"
        then obtain i where i: "i < length ms" "ms ! i = m" by (auto simp: in_set_conv_nth)
        from list_all2_nthD2[OF mem i(1)] obtain y where
          "lookup h' m = Some (DictionaryMember y)" "mem_owner y = d"
          unfolding i(2) by (elim conjE exE)
        then show "owner h' m = Inr d" unfolding owner_eq_Inr by blast
      qed
      then show ?thesis unfolding x 2 own_members_of(2)[OF self val] by simp
    qed
  qed
qed

lemma step_frozen_ok:
  assumes "step h h'" and ok: "frozen_ok h"
  shows "frozen_ok h'"
  using assms(1)
proof cases
  case (freeze_dictionary ir d)
  then show ?thesis using Dictionary_init_frozen_ok[OF ok] by blast
next
  case (freeze_member ir ow m)
  from DictionaryMember_init_shape[OF this] frozen_ok_append[OF ok] show ?thesis by blast
next
  case (new_member_builder n t v e c i a)
  then obtain ob where h': "h' = h @ [DictionaryMemberIR ob]"
    by (auto simp: DictionaryMember_IR_init_def alloc_def split: option.splits if_splits)
  show ?thesis unfolding h' by (rule frozen_ok_append[OF ok]) simp
next
  case (new_dictionary_builder n p r ms e c i a)
  then obtain ob where h': "h' = h @ [DictionaryIR ob]"
    by (auto simp: Dictionary_IR_init_def alloc_def split: option.splits if_splits)
  show ?thesis unfolding h' by (rule frozen_ok_append[OF ok]) simp
next
  case (new_reference r)
  show ?thesis unfolding new_reference by (rule frozen_ok_append[OF ok]) simp
next
  case (new_payload p)
  show ?thesis unfolding new_payload by (rule frozen_ok_append[OF ok]) simp
next
  case (resolve_reference a' r r')
  show ?thesis unfolding resolve_reference(1)
    by (rule frozen_ok_update[OF ok resolve_reference(2)]) (simp_all add: is_frozen_def)
next
  case (change_payload a' p p')
  show ?thesis unfolding change_payload(1)
    by (rule frozen_ok_update[OF ok change_payload(2)]) (simp_all add: is_frozen_def)
next
  case mutate_builder
  then show ?thesis
  proof cases
    case (assign_Dictionary_IR a' b b')
    show ?thesis unfolding assign_Dictionary_IR(1)
      by (rule frozen_ok_update[OF ok assign_Dictionary_IR(2)]) (simp_all add: is_frozen_def)
  next
    case (assign_DictionaryMember_IR a' b b')
    show ?thesis unfolding assign_DictionaryMember_IR(1)
      by (rule frozen_ok_update[OF ok assign_DictionaryMember_IR(2)]) (simp_all add: is_frozen_def)
  qed
qed

lemma steps_frozen_ok:
  assumes "step\<^sup>*\<^sup>* h h'" and "frozen_ok h"
  shows "frozen_ok h'"
  using assms by (induction rule: rtranclp_induct) (auto intro: step_frozen_ok)

lemma reachable_frozen_ok: "reachable h \<Longrightarrow> frozen_ok h"
  unfolding reachable_def
  by (erule steps_frozen_ok) (simp add: frozen_ok_def)

subsection \<open>What a successful freeze leaves in the store\<close>

lemma identifiers_cong:
  "list_all2 (\<lambda>a m. identifier_of h a = identifier_of h' m) as ms \<Longrightarrow>
   identifiers h as = identifiers h' ms"
  by (induction rule: list_all2_induct) (simp_all split: sum.splits)

lemma target_object_inherited:
  "lookup h d = Some (Dictionary x) \<Longrightarrow>
   inherited h d = (case dict_inherited x of None \<Rightarrow> Inr None
      | Some r \<Rightarrow> (case target_object h r of Inl e \<Rightarrow> Inl e | Inr t \<Rightarrow> Inr (Some t)))"
  by (simp add: inherited_def)

lemma builder_contents_None:
  assumes "builder_contents h ir = None"
  shows "Dictionary_init h ir = Inl AssertionError"
  using assms
  by (auto simp: builder_contents_def Dictionary_init_def make_copy_def Let_def
      split: option.splits obj.splits if_splits)

text \<open>The queries of a frozen object read the contents of its payloads.\<close>

lemma Dictionary_queries:
  assumes "lookup h d = Some (Dictionary x)"
  shows "identifier_of h d = Inr (dict_identifier (map_dictionary (payload_value h) x))"
    and "attributes h d =
           Inr (dict_extended_attributes (map_dictionary (payload_value h) x),
                dict_code_generator_info (map_dictionary (payload_value h) x),
                dict_exposure (map_dictionary (payload_value h) x),
                dict_components (map_dictionary (payload_value h) x),
                dict_debug_info (map_dictionary (payload_value h) x))"
    and "inherited_ref h d = Inr (dict_inherited (map_dictionary (payload_value h) x))"
    and "own_members h d = Inr (dict_own_members (map_dictionary (payload_value h) x))"
    and "is_dictionary h d = Inr True"
  using assms
  by (simp_all add: identifier_of_def attributes_def inherited_ref_def own_members_def
      is_dictionary_def map_dictionary_def)

lemma DictionaryMember_queries:
  assumes "lookup h m = Some (DictionaryMember y)"
  shows "identifier_of h m = Inr (mem_identifier (map_member (payload_value h) y))"
    and "attributes h m =
           Inr (mem_extended_attributes (map_member (payload_value h) y),
                mem_code_generator_info (map_member (payload_value h) y),
                mem_exposure (map_member (payload_value h) y),
                mem_components (map_member (payload_value h) y),
                mem_debug_info (map_member (payload_value h) y))"
    and "owner h m = Inr (mem_owner (map_member (payload_value h) y))"
    and "idl_type h m = Inr (mem_idl_type (map_member (payload_value h) y))"
    and "is_required h m = Inr (\<not> is_optional (mem_idl_type (map_member (payload_value h) y)))"
    and "default_value h m = Inr (mem_default_value (map_member (payload_value h) y))"
  using assms
  by (simp_all add: identifier_of_def attributes_def owner_def idl_type_def is_required_def
      default_value_def map_member_def)

lemma DictionaryMember_fields_of:
  assumes "lookup h m = Some (DictionaryMember y)"
    and "map_member (payload_value h) y = DictionaryMember_of c d"
  shows "DictionaryMember_fields h m = member_fields_of c"
  unfolding DictionaryMember_fields_def DictionaryMember_queries[OF assms(1)] assms(2)
  by (simp add: member_fields_of_def DictionaryMember_of_def)

lemma Dictionary_fields_build:
  assumes c: "builder_contents h ir = Some c"
  shows "build_fields h ir = (if ir_is_partial (fst c) then Inl AssertionError else Inr (fields_of c))"
proof -
  from c obtain b bs where b: "lookup h ir = Some (DictionaryIR b)"
    and bs: "get_member_irs h (ir_own_members b) = Some bs"
    and v: "list_all (is_Payload h) (payloads_ir b @ concat (map payloads_member_ir bs))"
    and c': "c = (map_ir (payload_value h) (b\<lparr>ir_own_members := []\<rparr>),
                  map (map_member_ir (payload_value h)) bs)"
    by (auto simp: builder_contents_def split: option.splits obj.splits if_splits)
  show ?thesis
  proof (cases "ir_is_partial b")
    case True
    then show ?thesis using b c' by (simp add: build_fields_def Dictionary_init_def)
  next
    case False
    from Dictionary_init_ok[OF b False bs v] obtain d h1 where
      init: "Dictionary_init h ir = Inr (d, h1)" by blast
    from Dictionary_init_result[OF init] b bs obtain ms x where
      d: "lookup h1 d = Some (Dictionary x)" and
      val: "map_dictionary (payload_value h1) x = Dictionary_of (map_ir (payload_value h) b) ms" and
      m: "list_all2 (\<lambda>b m. length h \<le> m \<and>
           (\<exists>y. lookup h1 m = Some (DictionaryMember y) \<and> mem_owner y = d \<and>
            map_member (payload_value h1) y =
              DictionaryMember_of (map_member_ir (payload_value h) b) d \<and>
            fresh_payloads (length h) h1 (payloads_member y))) bs ms"
      by auto
    have "map (DictionaryMember_fields h1) ms = map member_fields_of (map (map_member_ir (payload_value h)) bs)"
      using m
      by (induction rule: list_all2_induct) (auto simp: DictionaryMember_fields_of)
    then have "Dictionary_fields h1 d = fields_of c"
      unfolding c' Dictionary_fields_def Dictionary_queries[OF d] val
      by (simp add: fields_of_def Dictionary_of_def map_ir_def)
    then show ?thesis using init False c' by (simp add: build_fields_def)
  qed
qed

subsection \<open>The scenario, evaluated\<close>

lemma P5_base_build: "Dictionary_init P5_builders 3 = Inr (10, P5_base)"
  by code_simp

lemma P5_derived_build: "Dictionary_init P5_base 6 = Inr (18, P5_derived)"
  by code_simp

lemma P5_derived_builder:
  "lookup P5_base 6 = Some (DictionaryIR (dictionary_builder ''Derived'' (Some 0) [4, 5]))"
  by code_simp

lemma P5_reference: "lookup P5_derived 0 = Some (RefById \<lparr>ref_identifier = ''Base'', ref_target_object = None\<rparr>)"
  by code_simp

lemma P5_resolve: "step\<^sup>*\<^sup>* P5_derived P5_resolved"
  unfolding P5_resolved_def
  by (rule r_into_rtranclp, rule resolve_reference, rule P5_reference)

text \<open>
  The builders of the scenario are what the two builder constructors make, one after the
  other, and the whole scenario is a run of steps from the empty store.
\<close>

lemma P5_builders_steps: "step\<^sup>*\<^sup>* [] P5_builders"
proof -
  let ?t = "\<lparr>type_name = ''long'', is_optional = False\<rparr>"
  have 0: "step [] (take 1 P5_builders)"
  proof -
    have "take 1 P5_builders = [] @ [RefById \<lparr>ref_identifier = ''Base'', ref_target_object = None\<rparr>]"
      by code_simp
    then show ?thesis by (simp only: new_reference)
  qed
  have 1: "step (take 1 P5_builders) (take 2 P5_builders)"
    by (rule new_member_builder[of _ "''z''" "Some ?t" None None None None 1]) code_simp
  have 2: "step (take 2 P5_builders) (take 3 P5_builders)"
    by (rule new_member_builder[of _ "''a''" "Some ?t" None None None None 2]) code_simp
  have 3: "step (take 3 P5_builders) (take 4 P5_builders)"
    by (rule new_dictionary_builder[of _ "''Base''" False None "Some [1, 2]" None None None 3])
       code_simp
  have 4: "step (take 4 P5_builders) (take 5 P5_builders)"
    by (rule new_member_builder[of _ "''m''" "Some ?t" None None None None 4]) code_simp
  have 5: "step (take 5 P5_builders) (take 6 P5_builders)"
    by (rule new_member_builder[of _ "''b''" "Some ?t" None None None None 5]) code_simp
  have 6: "step (take 6 P5_builders) P5_builders"
    by (rule new_dictionary_builder[of _ "''Derived''" False "Some 0" "Some [4, 5]" None None None 6])
       code_simp
  have "step\<^sup>*\<^sup>* [] (take 1 P5_builders)" using 0 by (rule r_into_rtranclp)
  then have "step\<^sup>*\<^sup>* [] (take 2 P5_builders)" using 1 by (rule rtranclp.rtrancl_into_rtrancl)
  then have "step\<^sup>*\<^sup>* [] (take 3 P5_builders)" using 2 by (rule rtranclp.rtrancl_into_rtrancl)
  then have "step\<^sup>*\<^sup>* [] (take 4 P5_builders)" using 3 by (rule rtranclp.rtrancl_into_rtrancl)
  then have "step\<^sup>*\<^sup>* [] (take 5 P5_builders)" using 4 by (rule rtranclp.rtrancl_into_rtrancl)
  then have "step\<^sup>*\<^sup>* [] (take 6 P5_builders)" using 5 by (rule rtranclp.rtrancl_into_rtrancl)
  then show ?thesis using 6 by (rule rtranclp.rtrancl_into_rtrancl)
qed

lemma P5_reachable: "reachable P5_resolved"
proof -
  have 1: "step P5_builders P5_base" by (rule freeze_dictionary[OF P5_base_build])
  have 2: "step P5_base P5_derived" by (rule freeze_dictionary[OF P5_derived_build])
  from P5_builders_steps 1 have "step\<^sup>*\<^sup>* [] P5_base"
    by (rule rtranclp.rtrancl_into_rtrancl)
  then have "step\<^sup>*\<^sup>* [] P5_derived" using 2 by (rule rtranclp.rtrancl_into_rtrancl)
  then show ?thesis unfolding reachable_def using P5_resolve by (rule rtranclp_trans)
qed

lemma P5_builder_again: "builder_contents P5_derived 6 = builder_contents P5_base 6"
  by code_simp

subsection \<open>Owners, declaration order, the parent, determinism\<close>

lemma reachable_owner:
  assumes "reachable h" and "own_members h d = Inr ms" and "m \<in> set ms"
  shows "owner h m = Inr d"
  using reachable_frozen_ok[OF assms(1)] assms(2,3) unfolding frozen_ok_iff
  by (auto simp: own_members_def split: option.splits obj.splits)

text \<open>
  Claim C9. When a dictionary \<open>d\<close> has been frozen, every member in its own members has
  \<open>d\<close> as owner; this holds right after the freeze and in every store that any further
  steps lead to, with the same member tuple. (Lemma \<open>reachable_owner\<close> states the same
  as an invariant of all stores that steps can produce from the empty store.)
\<close>

theorem owner_back_reference:
  assumes "Dictionary_init h ir = Inr (d, h1)" and "step\<^sup>*\<^sup>* h1 h2"
  shows "\<exists>ms. own_members h1 d = Inr ms \<and> own_members h2 d = Inr ms \<and>
              (\<forall>m\<in>set ms. owner h1 m = Inr d \<and> owner h2 m = Inr d)"
proof -
  from Dictionary_init_result[OF assms(1)] obtain b bs ms x where
    d: "lookup h1 d = Some (Dictionary x)" and
    val: "map_dictionary (payload_value h1) x = Dictionary_of (map_ir (payload_value h) b) ms" and
    m: "list_all2 (\<lambda>b m. length h \<le> m \<and>
       (\<exists>y. lookup h1 m = Some (DictionaryMember y) \<and> mem_owner y = d \<and>
            map_member (payload_value h1) y =
              DictionaryMember_of (map_member_ir (payload_value h) b) d \<and>
            fresh_payloads (length h) h1 (payloads_member y))) bs ms"
    by blast
  have x: "dict_own_members x = ms" by (rule own_members_of(2)[OF d val])
  have d2: "lookup h2 d = Some (Dictionary x)"
    by (rule steps_frozen[OF assms(2) d]) (simp add: is_frozen_def)
  have o1: "\<forall>m\<in>set ms. \<exists>y. lookup h1 m = Some (DictionaryMember y) \<and> mem_owner y = d"
  proof
    fix m' assume "m' \<in> set ms"
    then obtain i where i: "i < length ms" "ms ! i = m'" by (auto simp: in_set_conv_nth)
    from list_all2_nthD2[OF m i(1)]
    show "\<exists>y. lookup h1 m' = Some (DictionaryMember y) \<and> mem_owner y = d"
      unfolding i(2) by (elim conjE exE) blast
  qed
  have o2: "\<forall>m\<in>set ms. \<exists>y. lookup h2 m = Some (DictionaryMember y) \<and> mem_owner y = d"
  proof
    fix m assume "m \<in> set ms"
    with o1 obtain y where y: "lookup h1 m = Some (DictionaryMember y)" "mem_owner y = d"
      by blast
    have "lookup h2 m = Some (DictionaryMember y)"
      by (rule steps_frozen[OF assms(2) y(1)]) (simp add: is_frozen_def)
    with y(2) show "\<exists>y. lookup h2 m = Some (DictionaryMember y) \<and> mem_owner y = d" by blast
  qed
  have "own_members h1 d = Inr ms" "own_members h2 d = Inr ms"
    using d d2 x by (simp_all add: own_members_def)
  then show ?thesis using o1 o2 unfolding owner_eq_Inr by blast
qed

theorem owner_back_reference_witness:
  "Dictionary_init P5_base 6 = Inr (18, P5_derived) \<and> step\<^sup>*\<^sup>* P5_derived P5_resolved \<and>
   (\<exists>ms. own_members P5_derived 18 = Inr ms \<and> own_members P5_resolved 18 = Inr ms \<and>
      (\<forall>m\<in>set ms. owner P5_derived m = Inr 18 \<and> owner P5_resolved m = Inr 18))"
  using P5_derived_build P5_resolve owner_back_reference[OF P5_derived_build P5_resolve]
  by blast

text \<open>
  Claim C6. The own members of a frozen dictionary are the frozen forms of the builder's
  member builders, one for one and in the order of the builder's list: they are not
  sorted. Each member has the contents of its builder, payload for payload, and the
  dictionary as owner. In the scenario, \<^verbatim>\<open>Derived\<close> built with the own members \<^verbatim>\<open>m, b\<close>
  reports \<^verbatim>\<open>m, b\<close>.
\<close>

theorem own_members_declaration_order:
  assumes "Dictionary_init h ir = Inr (d, h1)" and "lookup h ir = Some (DictionaryIR b)"
  shows "\<exists>ms. own_members h1 d = Inr ms \<and>
           list_all2 (\<lambda>a m. \<exists>x y. lookup h a = Some (DictionaryMemberIR x) \<and>
                         lookup h1 m = Some (DictionaryMember y) \<and>
                         map_member (payload_value h1) y =
                           DictionaryMember_of (map_member_ir (payload_value h) x) d)
             (ir_own_members b) ms \<and>
           identifiers h1 ms = identifiers h (ir_own_members b)"
proof -
  from Dictionary_init_result[OF assms(1)] obtain b' bs ms x where
    b': "lookup h ir = Some (DictionaryIR b')" and
    bs: "get_member_irs h (ir_own_members b') = Some bs" and
    d: "lookup h1 d = Some (Dictionary x)" and
    val: "map_dictionary (payload_value h1) x = Dictionary_of (map_ir (payload_value h) b') ms" and
    m: "list_all2 (\<lambda>b m. length h \<le> m \<and>
       (\<exists>y. lookup h1 m = Some (DictionaryMember y) \<and> mem_owner y = d \<and>
            map_member (payload_value h1) y =
              DictionaryMember_of (map_member_ir (payload_value h) b) d \<and>
            fresh_payloads (length h) h1 (payloads_member y))) bs ms"
    by blast
  from b' assms(2) have [simp]: "b' = b" by simp
  from bs have src: "list_all2 (\<lambda>a x. lookup h a = Some (DictionaryMemberIR x)) (ir_own_members b) bs"
    by (simp add: get_member_irs_all2)
  have len: "length (ir_own_members b) = length ms"
    using src m by (simp add: list_all2_conv_all_nth)
  have corr: "list_all2 (\<lambda>a m. \<exists>x y. lookup h a = Some (DictionaryMemberIR x) \<and>
                         lookup h1 m = Some (DictionaryMember y) \<and>
                         map_member (payload_value h1) y =
                           DictionaryMember_of (map_member_ir (payload_value h) x) d)
             (ir_own_members b) ms"
    unfolding list_all2_conv_all_nth
  proof (intro conjI allI impI)
    show "length (ir_own_members b) = length ms" by (rule len)
  next
    fix i assume i: "i < length (ir_own_members b)"
    then have i2: "i < length ms" using len by simp
    from list_all2_nthD[OF src i]
    have a: "lookup h (ir_own_members b ! i) = Some (DictionaryMemberIR (bs ! i))" .
    from list_all2_nthD2[OF m i2] obtain y where
      "lookup h1 (ms ! i) = Some (DictionaryMember y)"
      "map_member (payload_value h1) y =
         DictionaryMember_of (map_member_ir (payload_value h) (bs ! i)) d"
      by (elim conjE exE)
    with a show "\<exists>x y. lookup h (ir_own_members b ! i) = Some (DictionaryMemberIR x) \<and>
                         lookup h1 (ms ! i) = Some (DictionaryMember y) \<and>
                         map_member (payload_value h1) y =
                           DictionaryMember_of (map_member_ir (payload_value h) x) d"
      by blast
  qed
  have "list_all2 (\<lambda>m a. identifier_of h1 m = identifier_of h a) ms (ir_own_members b)"
    unfolding list_all2_conv_all_nth
  proof (intro conjI allI impI)
    show "length ms = length (ir_own_members b)" using len by simp
  next
    fix i assume i2: "i < length ms"
    then have i: "i < length (ir_own_members b)" using len by simp
    from list_all2_nthD[OF corr i] obtain x y where
      a: "lookup h (ir_own_members b ! i) = Some (DictionaryMemberIR x)" and
      y: "lookup h1 (ms ! i) = Some (DictionaryMember y)" and
      v: "map_member (payload_value h1) y =
            DictionaryMember_of (map_member_ir (payload_value h) x) d"
      by blast
    from v have "mem_identifier (map_member (payload_value h1) y) = mir_identifier x"
      by (simp add: DictionaryMember_of_def map_member_ir_def)
    then show "identifier_of h1 (ms ! i) = identifier_of h (ir_own_members b ! i)"
      using a y by (simp add: identifier_of_def)
  qed
  then have "identifiers h1 ms = identifiers h (ir_own_members b)"
    by (rule identifiers_cong)
  moreover have "own_members h1 d = Inr ms"
    using own_members_of(1)[OF d val] .
  ultimately show ?thesis using corr by blast
qed

theorem own_members_declaration_order_witness:
  "Dictionary_init P5_base 6 = Inr (18, P5_derived) \<and>
   lookup P5_base 6 = Some (DictionaryIR (dictionary_builder ''Derived'' (Some 0) [4, 5])) \<and>
   (\<exists>ms. own_members P5_derived 18 = Inr ms \<and> identifiers P5_derived ms = Inr [''m'', ''b''])"
proof -
  have ids: "identifiers P5_base [4, 5] = Inr [''m'', ''b'']"
    by code_simp
  from own_members_declaration_order[OF P5_derived_build P5_derived_builder]
  obtain ms where "own_members P5_derived 18 = Inr ms"
    and "identifiers P5_derived ms =
           identifiers P5_base
             (ir_own_members (dictionary_builder ''Derived'' (Some 0) [4, 5] :: addr dictionary_ir))"
    by blast
  then have "own_members P5_derived 18 = Inr ms \<and> identifiers P5_derived ms = Inr [''m'', ''b'']"
    using ids by (simp add: dictionary_builder_def)
  then show ?thesis using P5_derived_build P5_derived_builder by blast
qed

text \<open>
  Claim C7, as stated: building a dictionary from a builder with an inherited reference
  resolves the reference into a concrete parent dictionary, which the \<^verbatim>\<open>inherited\<close> query
  then returns. In the scenario the builder of \<^verbatim>\<open>Derived\<close> has the reference at address
  0, the build succeeds, and afterwards the reference still has no target: the build has
  resolved nothing, and the query on the new dictionary finds no parent.
\<close>

theorem build_does_not_resolve_counterexample:
  "lookup P5_base 6 = Some (DictionaryIR (dictionary_builder ''Derived'' (Some 0) [4, 5])) \<and>
   Dictionary_init P5_base 6 = Inr (18, P5_derived) \<and>
   inherited_ref P5_derived 18 = Inr (Some 0) \<and>
   target_object P5_derived 0 = Inl ResolutionError \<and>
   inherited P5_derived 18 = Inl ResolutionError"
  by code_simp

text \<open>
  Claim C7, amended. Building a dictionary from a builder that is not partial, whose
  member list holds member builders and whose attributes hold payload objects where
  payloads belong, succeeds whether or not its inherited reference has a target; it
  stores the reference as it is and resolves nothing: every reference of the store has
  the same target, or none, after the build as before. The \<^verbatim>\<open>inherited\<close> query
  follows the stored reference at the time of the call, in whatever store the steps since
  the build have led to: it returns the target that the reference has by then, raises
  what the reference raises when it has none, and returns \<^verbatim>\<open>None\<close> when the builder
  had no inherited reference.
\<close>

theorem inherited_resolved_on_demand:
  assumes "lookup h ir = Some (DictionaryIR b)" and "\<not> ir_is_partial b"
    and "get_member_irs h (ir_own_members b) = Some bs"
    and "list_all (is_Payload h) (payloads_ir b @ concat (map payloads_member_ir bs))"
  shows "\<exists>d h1. Dictionary_init h ir = Inr (d, h1) \<and>
           (\<forall>r. target_object h1 r = target_object h r) \<and>
           inherited_ref h1 d = Inr (ir_inherited b) \<and>
           (\<forall>h2. step\<^sup>*\<^sup>* h1 h2 \<longrightarrow>
              inherited h2 d =
                (case ir_inherited b of
                   None \<Rightarrow> Inr None
                 | Some r \<Rightarrow>
                     (case target_object h2 r of Inl e \<Rightarrow> Inl e | Inr t \<Rightarrow> Inr (Some t))))"
proof -
  from Dictionary_init_ok[OF assms] obtain d ms ext x where
    init: "Dictionary_init h ir = Inr (d, h @ ext)" and
    d: "lookup (h @ ext) d = Some (Dictionary x)" and
    val: "map_dictionary (payload_value (h @ ext)) x =
            Dictionary_of (map_ir (payload_value h) b) ms" and
    refs: "\<forall>a r. lookup (h @ ext) a = Some (RefById r) \<longrightarrow> a < length h"
    by blast
  from val have "dict_inherited (map_dictionary (payload_value (h @ ext)) x) = ir_inherited b"
    by (simp add: Dictionary_of_def)
  then have inh: "dict_inherited x = ir_inherited b" by simp
  have same: "\<forall>r. target_object (h @ ext) r = target_object h r"
  proof
    fix r
    show "target_object (h @ ext) r = target_object h r"
    proof (cases "r < length h")
      case True
      then show ?thesis by (simp add: target_object_def lookup_def nth_append)
    next
      case False
      with refs have "\<forall>x. lookup (h @ ext) r \<noteq> Some (RefById x)" by blast
      then have "target_object (h @ ext) r = Inl AttributeError"
        by (auto simp: target_object_def split: option.splits obj.splits)
      moreover have "target_object h r = Inl AttributeError"
        using False by (simp add: target_object_def lookup_def)
      ultimately show ?thesis by simp
    qed
  qed
  have later: "\<forall>h2. step\<^sup>*\<^sup>* (h @ ext) h2 \<longrightarrow>
              inherited h2 d =
                (case ir_inherited b of
                   None \<Rightarrow> Inr None
                 | Some r \<Rightarrow>
                     (case target_object h2 r of Inl e \<Rightarrow> Inl e | Inr t \<Rightarrow> Inr (Some t)))"
  proof (intro allI impI)
    fix h2 assume "step\<^sup>*\<^sup>* (h @ ext) h2"
    from steps_frozen[OF this d]
    have "lookup h2 d = Some (Dictionary x)" by (simp add: is_frozen_def)
    from target_object_inherited[OF this]
    show "inherited h2 d =
                (case ir_inherited b of
                   None \<Rightarrow> Inr None
                 | Some r \<Rightarrow>
                     (case target_object h2 r of Inl e \<Rightarrow> Inl e | Inr t \<Rightarrow> Inr (Some t)))"
      by (simp add: inh)
  qed
  have "inherited_ref (h @ ext) d = Inr (ir_inherited b)"
    using d inh by (simp add: inherited_ref_def)
  with init same later show ?thesis by blast
qed

theorem inherited_resolved_on_demand_witness:
  "lookup P5_base 6 = Some (DictionaryIR (dictionary_builder ''Derived'' (Some 0) [4, 5])) \<and>
   \<not> ir_is_partial (dictionary_builder ''Derived'' (Some 0) [4, 5] :: addr dictionary_ir) \<and>
   get_member_irs P5_base (ir_own_members (dictionary_builder ''Derived'' (Some 0) [4, 5] :: addr dictionary_ir)) =
     Some [member_builder ''m'', member_builder ''b''] \<and>
   list_all (is_Payload P5_base)
     (payloads_ir (dictionary_builder ''Derived'' (Some 0) [4, 5]) @
      concat (map payloads_member_ir [member_builder ''m'', member_builder ''b''])) \<and>
   target_object P5_base 0 = Inl ResolutionError \<and>
   Dictionary_init P5_base 6 = Inr (18, P5_derived) \<and>
   target_object P5_derived 0 = Inl ResolutionError \<and>
   inherited_ref P5_derived 18 = Inr (Some 0) \<and>
   step\<^sup>*\<^sup>* P5_derived P5_resolved \<and>
   inherited P5_resolved 18 = Inr (Some 10)"
proof -
  let ?b = "dictionary_builder ''Derived'' (Some 0) [4, 5] :: addr dictionary_ir"
  have np: "\<not> ir_is_partial ?b"
    by (simp add: dictionary_builder_def)
  have ms: "get_member_irs P5_base (ir_own_members ?b) =
     Some [member_builder ''m'', member_builder ''b'']"
    by code_simp
  have v: "list_all (is_Payload P5_base)
     (payloads_ir ?b @ concat (map payloads_member_ir [member_builder ''m'', member_builder ''b'']))"
    by (simp add: payloads_ir_def payloads_member_ir_def dictionary_builder_def
        member_builder_def opt_list_def)
  have t0: "target_object P5_base 0 = Inl ResolutionError"
    by code_simp
  have t: "target_object P5_resolved 0 = Inr 10"
    by code_simp
  from inherited_resolved_on_demand[OF P5_derived_builder np ms v]
  obtain d h1 where
    "Dictionary_init P5_base 6 = Inr (d, h1)" and
    same: "\<forall>r. target_object h1 r = target_object P5_base r" and
    ref: "inherited_ref h1 d = Inr (ir_inherited ?b)" and
    later: "\<forall>h2. step\<^sup>*\<^sup>* h1 h2 \<longrightarrow>
              inherited h2 d =
                (case ir_inherited ?b of
                   None \<Rightarrow> Inr None
                 | Some r \<Rightarrow>
                     (case target_object h2 r of Inl e \<Rightarrow> Inl e | Inr t \<Rightarrow> Inr (Some t)))"
    by blast
  with P5_derived_build have [simp]: "d = 18" "h1 = P5_derived" by simp_all
  from same t0 have "target_object P5_derived 0 = Inl ResolutionError" by simp
  moreover from ref have "inherited_ref P5_derived 18 = Inr (Some 0)"
    by (simp add: dictionary_builder_def)
  moreover from later P5_resolve t have "inherited P5_resolved 18 = Inr (Some 10)"
    by (simp add: dictionary_builder_def)
  ultimately show ?thesis using P5_derived_builder np ms v t0 P5_derived_build P5_resolve
    by blast
qed

text \<open>
  Claim C8. Freezing is deterministic: two builders with the same contents, in any two
  stores, give the same outcome, that is the same error or dictionaries with the same
  identifier, the same attributes, the same inherited reference and, member by member in
  the same order, the same member fields. In the scenario the builder of \<^verbatim>\<open>Derived\<close> is
  frozen a second time.
\<close>

theorem build_deterministic:
  assumes "builder_contents h ir = builder_contents h' ir'"
  shows "build_fields h ir = build_fields h' ir'"
proof (cases "builder_contents h ir")
  case None
  then show ?thesis using assms
    by (simp add: build_fields_def builder_contents_None)
next
  case (Some c)
  then show ?thesis using assms by (simp add: Dictionary_fields_build)
qed

theorem build_deterministic_witness:
  "builder_contents P5_derived 6 = builder_contents P5_base 6 \<and>
   build_fields P5_derived 6 = build_fields P5_base 6 \<and>
   build_fields P5_base 6 =
     Inr (fields_of (dictionary_builder ''Derived'' (Some 0) [],
                     [member_builder ''m'', member_builder ''b'']))"
proof -
  have "build_fields P5_base 6 =
     Inr (fields_of (dictionary_builder ''Derived'' (Some 0) [],
                     [member_builder ''m'', member_builder ''b'']))"
    by code_simp
  then show ?thesis
    using P5_builder_again build_deterministic[OF P5_builder_again] by blast
qed

subsection \<open>The flattened view\<close>

lemma collect_None [simp]: "collect_inherited_members h None = Some (Inr [])"
  by (subst collect_inherited_members.simps) simp

lemma collect_Some:
  "collect_inherited_members h (Some d) =
     (case inherited h d of
        Inl e \<Rightarrow> Some (Inl e)
      | Inr parent \<Rightarrow>
          Option.bind (collect_inherited_members h parent)
            (\<lambda>r. case r of
               Inl e \<Rightarrow> Some (Inl e)
             | Inr inh \<Rightarrow>
                 (case own_members h d of
                    Inl e \<Rightarrow> Some (Inl e)
                  | Inr own \<Rightarrow>
                      (case sorted_by_identifier h own of
                         Inl e \<Rightarrow> Some (Inl e)
                       | Inr s \<Rightarrow> Some (Inr (inh @ s))))))"
  by (subst collect_inherited_members.simps) simp

lemma collect_step_returns:
  assumes "inherited h d = Inr parent" and "collect_inherited_members h parent = Some r"
  shows "\<exists>r'. collect_inherited_members h (Some d) = Some r'"
  using assms by (simp add: collect_Some split: sum.splits)

lemma parent_chain_unique:
  "parent_chain h d ps \<Longrightarrow> parent_chain h d qs \<Longrightarrow> ps = qs"
proof (induction ps arbitrary: d qs)
  case Nil
  then show ?case by (cases qs) auto
next
  case (Cons p ps)
  then show ?case by (cases qs) auto
qed

lemma parent_chain_suffix:
  "parent_chain h d ps \<Longrightarrow> x \<in> set ps \<Longrightarrow>
   \<exists>ys. parent_chain h x ys \<and> length ys < length ps"
proof (induction ps arbitrary: d)
  case Nil
  then show ?case by simp
next
  case (Cons p ps)
  show ?case
  proof (cases "x = p")
    case True
    then show ?thesis using Cons.prems by auto
  next
    case False
    with Cons.prems have "x \<in> set ps" "parent_chain h p ps" by auto
    from Cons.IH[OF this(2,1)] show ?thesis by auto
  qed
qed

lemma parent_chain_distinct: "parent_chain h d ps \<Longrightarrow> distinct (d # ps)"
proof (induction ps arbitrary: d)
  case Nil
  then show ?case by simp
next
  case (Cons p ps)
  from Cons.prems have "parent_chain h p ps" by simp
  then have tl: "distinct (p # ps)" by (rule Cons.IH)
  have "d \<notin> set (p # ps)"
  proof
    assume "d \<in> set (p # ps)"
    from parent_chain_suffix[OF Cons.prems this] obtain ys where
      "parent_chain h d ys" "length ys < length (p # ps)" by blast
    with parent_chain_unique[OF Cons.prems this(1)] show False by simp
  qed
  with tl show ?case by simp
qed

lemma insort_key_decorated:
  assumes "\<forall>p\<in>set ys. fst p = f (snd p)"
  shows "map snd (insort_key fst (f x, x) ys) = insort_key f x (map snd ys)"
  using assms by (induction ys) auto

lemma sort_key_decorated: "map snd (sort_key fst (zip (map f xs) xs)) = sort_key f xs"
proof (induction xs)
  case Nil
  then show ?case by simp
next
  case (Cons x xs)
  have "\<forall>p\<in>set (sort_key fst (zip (map f xs) xs)). fst p = f (snd p)"
    by (auto simp: in_set_zip)
  from insort_key_decorated[OF this] Cons show ?case by simp
qed

lemma identifiers_members:
  assumes "\<forall>m\<in>set ms. is_DictionaryMember h m"
  shows "identifiers h ms = Inr (map (spec_identifier h) ms)"
  using assms
  by (induction ms)
     (auto simp: is_DictionaryMember_def identifier_of_def spec_identifier_def
       split: option.splits obj.splits)

lemma sorted_by_identifier_members:
  assumes "\<forall>m\<in>set ms. is_DictionaryMember h m"
  shows "sorted_by_identifier h ms = Inr (sort_key (spec_identifier h) ms)"
  by (simp add: sorted_by_identifier_def identifiers_members[OF assms] sort_key_decorated)

lemma frozen_ok_own_members:
  assumes "frozen_ok h" and "lookup h d = Some (Dictionary x)"
  shows "\<forall>m\<in>set (dict_own_members x). is_DictionaryMember h m"
  using assms unfolding frozen_ok_iff owner_eq_Inr
  by (fastforce simp: is_DictionaryMember_def)

lemma collect_level:
  assumes ok: "frozen_ok h" and i: "inherited h d = Inr parent"
    and r: "collect_inherited_members h parent = Some (Inr inh)"
  shows "collect_inherited_members h (Some d) =
           Some (Inr (inh @ sort_key (spec_identifier h) (spec_ownMembers h d)))"
proof -
  from i obtain x where x: "lookup h d = Some (Dictionary x)"
    by (auto simp: inherited_def split: option.splits obj.splits)
  then have own: "own_members h d = Inr (dict_own_members x)"
    and sown: "spec_ownMembers h d = dict_own_members x"
    by (simp_all add: own_members_def spec_ownMembers_def)
  from sorted_by_identifier_members[OF frozen_ok_own_members[OF ok x]]
  show ?thesis using i r own sown by (simp add: collect_Some)
qed

lemma P5_frozen_ok: "frozen_ok P5_resolved"
  by code_simp

lemma P5_chain: "parent_chain P5_resolved 18 [10]"
  by code_simp

text \<open>
  Claim C1. For a frozen dictionary \<open>d\<close> whose ancestors are \<open>ps\<close>, in a store where the
  members of every dictionary are frozen members (the invariant \<open>frozen_ok\<close>, which by
  lemma \<open>reachable_frozen_ok\<close> holds in every store that steps produce from the empty
  one), the \<^verbatim>\<open>members\<close> query returns what the recursion of the specification gives: the members of the parent, followed by the own
  members sorted by identifier, and nothing for the absent dictionary. In the scenario,
  \<^verbatim>\<open>Base\<close> has the own members \<^verbatim>\<open>z, a\<close>, \<^verbatim>\<open>Derived\<close> has \<^verbatim>\<open>m, b\<close>, and the members of
  \<^verbatim>\<open>Derived\<close> are \<^verbatim>\<open>a, z, b, m\<close>.
\<close>

theorem members_flattened:
  assumes "frozen_ok h" and "parent_chain h d ps"
  shows "members h d = Some (Inr (spec_members h (d # ps)))"
proof -
  have "collect_inherited_members h (Some d) = Some (Inr (spec_members h (d # ps)))"
    using assms(2)
  proof (induction ps arbitrary: d)
    case Nil
    then have "inherited h d = Inr None" by simp
    from collect_level[OF assms(1) this, of "[]"] show ?case by simp
  next
    case (Cons p ps)
    then have i: "inherited h d = Inr (Some p)" and "parent_chain h p ps" by simp_all
    from collect_level[OF assms(1) i Cons.IH[OF this(2)]] show ?case by simp
  qed
  then show ?thesis by (simp add: members_def)
qed

theorem members_flattened_witness:
  "frozen_ok P5_resolved \<and> parent_chain P5_resolved 18 [10] \<and>
   identifiers P5_resolved (spec_ownMembers P5_resolved 10) = Inr [''z'', ''a''] \<and>
   identifiers P5_resolved (spec_ownMembers P5_resolved 18) = Inr [''m'', ''b''] \<and>
   members P5_resolved 18 = Some (Inr [14, 12, 22, 20]) \<and>
   identifiers P5_resolved [14, 12, 22, 20] = Inr [''a'', ''z'', ''b'', ''m'']"
proof -
  have own: "identifiers P5_resolved (spec_ownMembers P5_resolved 10) = Inr [''z'', ''a'']"
    "identifiers P5_resolved (spec_ownMembers P5_resolved 18) = Inr [''m'', ''b'']"
    by code_simp+
  have sp: "spec_members P5_resolved [18, 10] = [14, 12, 22, 20]"
    by code_simp
  have ids: "identifiers P5_resolved [14, 12, 22, 20] = Inr [''a'', ''z'', ''b'', ''m'']"
    by code_simp
  from members_flattened[OF P5_frozen_ok P5_chain]
  have "members P5_resolved 18 = Some (Inr [14, 12, 22, 20])"
    unfolding sp .
  with P5_frozen_ok P5_chain own ids show ?thesis by blast
qed

text \<open>
  Claim C10. When the chain of parents of a dictionary is finite, that is when following
  the parent links comes to a dictionary without parent, the chain has no repetition and
  the \<^verbatim>\<open>members\<close> query returns, with a value or with a raised error. The function has
  no guard of its own: on the store \<open>self_parent\<close>, where a dictionary is its own parent,
  the recursion never comes back (lemma \<open>members_cycle\<close>; CPython would end it with a
  \<^verbatim>\<open>RecursionError\<close> once its recursion limit is reached).
\<close>

theorem members_terminates:
  assumes "parent_chain h d ps"
  shows "distinct (d # ps) \<and> (\<exists>r. members h d = Some r)"
proof -
  have "\<exists>r. collect_inherited_members h (Some d) = Some r"
    using assms
  proof (induction ps arbitrary: d)
    case Nil
    then have "inherited h d = Inr None" by simp
    then show ?case by (rule collect_step_returns) simp
  next
    case (Cons p ps)
    then have i: "inherited h d = Inr (Some p)" and "parent_chain h p ps" by simp_all
    from Cons.IH[OF this(2)] obtain r where "collect_inherited_members h (Some p) = Some r" ..
    with i show ?case by (rule collect_step_returns)
  qed
  with parent_chain_distinct[OF assms] show ?thesis by (simp add: members_def)
qed

theorem members_terminates_witness:
  "parent_chain P5_resolved 18 [10] \<and> distinct [18 :: addr, 10] \<and>
   (\<exists>r. members P5_resolved 18 = Some r)"
  using P5_chain members_terminates[OF P5_chain] by blast

lemma self_parent_inherited: "inherited self_parent (Suc 0) = Inr (Some (Suc 0))"
proof -
  have "inherited self_parent 1 = Inr (Some 1)" by code_simp
  then show ?thesis by simp
qed

lemma collect_not_on_cycle:
  assumes "collect_inherited_members h x = Some y"
  shows "\<not> (h = self_parent \<and> x = Some (Suc 0))"
proof (rule collect_inherited_members.raw_induct
    [where P = "\<lambda>h x y. \<not> (h = self_parent \<and> x = Some (Suc 0))", OF _ assms])
  fix f h x and y :: "error + addr list"
  assume ih: "\<And>h x y. f h x = Some y \<Longrightarrow> \<not> (h = self_parent \<and> x = Some (Suc 0))"
    and body: "(case x of
        None \<Rightarrow> Some (Inr [])
      | Some d \<Rightarrow>
          (case inherited h d of
             Inl e \<Rightarrow> Some (Inl e)
           | Inr parent \<Rightarrow>
               Option.bind (f h parent)
                 (\<lambda>r. case r of
                    Inl e \<Rightarrow> Some (Inl e)
                  | Inr inh \<Rightarrow>
                      (case own_members h d of
                         Inl e \<Rightarrow> Some (Inl e)
                       | Inr own \<Rightarrow>
                           (case sorted_by_identifier h own of
                              Inl e \<Rightarrow> Some (Inl e)
                            | Inr s \<Rightarrow> Some (Inr (inh @ s))))))) = Some y"
  show "\<not> (h = self_parent \<and> x = Some (Suc 0))"
  proof
    assume hx: "h = self_parent \<and> x = Some (Suc 0)"
    from body have "\<exists>r. f self_parent (Some (Suc 0)) = Some r"
      using hx by (auto simp: self_parent_inherited split: Option.bind_splits)
    then obtain r where r: "f self_parent (Some (Suc 0)) = Some r" ..
    from ih[OF r] show False by simp
  qed
qed

lemma members_cycle: "members self_parent 1 = None"
proof (cases "collect_inherited_members self_parent (Some (Suc 0))")
  case None
  then show ?thesis by (simp add: members_def)
next
  case (Some y)
  from collect_not_on_cycle[OF this] show ?thesis by simp
qed

subsection \<open>Changing a builder after the freeze\<close>































subsection \<open>The assertions of the constructors\<close>

text \<open>
  Claim C2. Constructing a member builder fails with an assertion error when the declared
  type is missing (\<^verbatim>\<open>None\<close>), and when a default value is present while the declared
  type is not optional; with an optional declared type and a present default value the
  construction succeeds, and the new builder carries that type and that default value.
\<close>

theorem DictionaryMember_IR_init_assertions:
  "DictionaryMember_IR_init h n None v e c i = Inl AssertionError \<and>
   (v \<noteq> None \<and> \<not> is_optional t \<longrightarrow>
      DictionaryMember_IR_init h n (Some t) v e c i = Inl AssertionError) \<and>
   (v \<noteq> None \<and> is_optional t \<longrightarrow>
      (\<exists>a h' b. DictionaryMember_IR_init h n (Some t) v e c i = Inr (a, h') \<and>
         lookup h' a = Some (DictionaryMemberIR b) \<and>
         mir_identifier b = n \<and> mir_idl_type b = t \<and> mir_default_value b = v))"
  by (auto simp: DictionaryMember_IR_init_def alloc_def lookup_def)

theorem DictionaryMember_IR_init_assertions_witness:
  "DictionaryMember_IR_init [] ''x'' None (Some (Literal ''1'')) None None None =
     Inl AssertionError \<and>
   DictionaryMember_IR_init [] ''x'' (Some \<lparr>type_name = ''long'', is_optional = False\<rparr>)
     (Some (Literal ''1'')) None None None = Inl AssertionError \<and>
   (\<exists>a h' b. DictionaryMember_IR_init [] ''x''
        (Some \<lparr>type_name = ''long'', is_optional = True\<rparr>)
        (Some (Literal ''1'')) None None None = Inr (a, h') \<and>
      lookup h' a = Some (DictionaryMemberIR b) \<and> mir_identifier b = ''x'' \<and>
      mir_idl_type b = \<lparr>type_name = ''long'', is_optional = True\<rparr> \<and>
      mir_default_value b = Some (Literal ''1''))"
  using DictionaryMember_IR_init_assertions
          [of "[]" "''x''" "Some (Literal ''1'')" None None None
              "\<lparr>type_name = ''long'', is_optional = False\<rparr>"]
        DictionaryMember_IR_init_assertions
          [of "[]" "''x''" "Some (Literal ''1'')" None None None
              "\<lparr>type_name = ''long'', is_optional = True\<rparr>"]
  by simp

text \<open>
  Claim C3. Freezing a dictionary builder whose \<^verbatim>\<open>is_partial\<close> flag is true fails with
  an assertion error, whatever the other attributes of the builder are. The error result
  carries no store and no address: no dictionary, complete or not, comes out of the call.
\<close>

theorem Dictionary_init_partial:
  assumes "lookup h ir = Some (DictionaryIR b)" and "ir_is_partial b"
  shows "Dictionary_init h ir = Inl AssertionError"
  using assms by (simp add: Dictionary_init_def)

theorem Dictionary_init_partial_witness:
  "lookup [DictionaryIR \<lparr>ir_identifier = ''D'', ir_kind = PARTIAL_DICTIONARY,
       ir_extended_attributes = None, ir_code_generator_info = None, ir_exposure = None,
       ir_components = [], ir_debug_info = None, ir_is_partial = True,
       ir_inherited = None, ir_own_members = []\<rparr>] 0 =
     Some (DictionaryIR \<lparr>ir_identifier = ''D'', ir_kind = PARTIAL_DICTIONARY,
       ir_extended_attributes = None, ir_code_generator_info = None, ir_exposure = None,
       ir_components = [], ir_debug_info = None, ir_is_partial = True,
       ir_inherited = None, ir_own_members = []\<rparr>) \<and>
   Dictionary_init [DictionaryIR \<lparr>ir_identifier = ''D'', ir_kind = PARTIAL_DICTIONARY,
       ir_extended_attributes = None, ir_code_generator_info = None, ir_exposure = None,
       ir_components = [], ir_debug_info = None, ir_is_partial = True,
       ir_inherited = None, ir_own_members = []\<rparr>] 0 = Inl AssertionError"
proof -
  let ?b = "\<lparr>ir_identifier = ''D'', ir_kind = PARTIAL_DICTIONARY,
       ir_extended_attributes = None, ir_code_generator_info = None, ir_exposure = None,
       ir_components = [], ir_debug_info = None, ir_is_partial = True,
       ir_inherited = None, ir_own_members = []\<rparr>"
  have l: "lookup [DictionaryIR ?b] 0 = Some (DictionaryIR ?b)"
    by (simp add: lookup_def)
  have p: "ir_is_partial ?b" by simp
  from l Dictionary_init_partial[OF l p] show ?thesis by simp
qed

subsection \<open>Required members\<close>

text \<open>
  Claim C5. For every frozen member, \<^verbatim>\<open>is_required\<close> is the negation of
  \<^verbatim>\<open>is_optional\<close> of the type that \<^verbatim>\<open>idl_type\<close> returns. The two queries read the same
  attribute, so no other flag can override the result; on an object that is not a frozen
  member both raise.
\<close>

theorem is_required_not_optional:
  "is_required h m = (case idl_type h m of Inl e \<Rightarrow> Inl e | Inr t \<Rightarrow> Inr (\<not> is_optional t)) \<and>
   (is_DictionaryMember h m \<longrightarrow>
      (\<exists>t. idl_type h m = Inr t \<and> is_required h m = Inr (\<not> is_optional t)))"
  by (auto simp: is_required_def idl_type_def is_DictionaryMember_def
      split: option.splits obj.splits)

theorem is_required_not_optional_witness:
  "is_DictionaryMember
     [DictionaryMember \<lparr>mem_identifier = ''x'', mem_extended_attributes = None,
        mem_code_generator_info = None, mem_exposure = None, mem_owner = 1,
        mem_components = [], mem_debug_info = None,
        mem_idl_type = \<lparr>type_name = ''long'', is_optional = False\<rparr>,
        mem_default_value = None\<rparr>] 0 \<and>
   (\<exists>t. idl_type
     [DictionaryMember \<lparr>mem_identifier = ''x'', mem_extended_attributes = None,
        mem_code_generator_info = None, mem_exposure = None, mem_owner = 1,
        mem_components = [], mem_debug_info = None,
        mem_idl_type = \<lparr>type_name = ''long'', is_optional = False\<rparr>,
        mem_default_value = None\<rparr>] 0 = Inr t \<and>
     is_required
     [DictionaryMember \<lparr>mem_identifier = ''x'', mem_extended_attributes = None,
        mem_code_generator_info = None, mem_exposure = None, mem_owner = 1,
        mem_components = [], mem_debug_info = None,
        mem_idl_type = \<lparr>type_name = ''long'', is_optional = False\<rparr>,
        mem_default_value = None\<rparr>] 0 = Inr (\<not> is_optional t))"
proof -
  let ?h = "[DictionaryMember \<lparr>mem_identifier = ''x'', mem_extended_attributes = None,
        mem_code_generator_info = None, mem_exposure = None, mem_owner = 1,
        mem_components = [], mem_debug_info = None,
        mem_idl_type = \<lparr>type_name = ''long'', is_optional = False\<rparr>,
        mem_default_value = None\<rparr>]"
  have m: "is_DictionaryMember ?h 0"
    by (simp add: is_DictionaryMember_def lookup_def)
  with is_required_not_optional[of ?h 0] show ?thesis by blast
qed

end
